theory Spec2Isabelle
  imports Complex_Main "HOL-Library.Multiset" "HOL-Library.Char_ord" "HOL-Library.List_Lexorder"
    "HOL-Library.Product_Lexorder"
begin

section \<open>Data model\<close>

text \<open>
  The relational store behind \<^verbatim>\<open>PostsRepository\<close>, \<^verbatim>\<open>CommentRepository\<close> and
  \<^verbatim>\<open>CommentService\<close>: three tables, each a list of rows in storage order.
  Identifiers are values of the store's type \<^verbatim>\<open>uuid\<close>, kept as text (the example rows use
  short names for them; where a statement reads an identifier from a parameter, \<open>uuid_in\<close>
  below reads it); timestamps are milliseconds since the epoch, the counters of a post are
  integers. The surrogate key \<^verbatim>\<open>likes.id\<close> is generated by the store and read by no statement
  of the repositories; it is left out of the row.
\<close>

type_synonym uuid = string
type_synonym timestamp = nat

text \<open>\<^verbatim>\<open>DeletionStatus.ACTIVE\<close> / \<^verbatim>\<open>DeletionStatus.DELETED\<close>, the strings
  \<^verbatim>\<open>'active'\<close> / \<^verbatim>\<open>'deleted'\<close> of the column \<^verbatim>\<open>deletion_status\<close>.\<close>

datatype DeletionStatus = ACTIVE | DELETED

text \<open>The entity \<^verbatim>\<open>Likes\<close> (table \<^verbatim>\<open>likes\<close>). The columns \<^verbatim>\<open>entity_type\<close> and
  \<^verbatim>\<open>status\<close> are \<^verbatim>\<open>character varying\<close>: any string can be stored.\<close>

record Likes =
  like_user_id :: uuid
  like_user_login :: string
  like_entity_id :: uuid
  like_entity_type :: string
  like_status :: string
  like_created_at :: timestamp

text \<open>A row of \<^verbatim>\<open>posts\<close>, joined with its blog as \<^verbatim>\<open>leftJoinAndSelect('post.blog', 'blog')\<close>
  delivers it (\<^verbatim>\<open>post.blog.id\<close>, \<^verbatim>\<open>post.blog.name\<close>).\<close>

record Post =
  post_id :: uuid
  post_title :: string
  post_shortDescription :: string
  post_content :: string
  post_blog_id :: uuid
  post_blog_name :: string
  post_likesCount :: int
  post_dislikesCount :: int
  post_createdAt :: timestamp
  post_deletionStatus :: DeletionStatus

text \<open>A row of \<^verbatim>\<open>comments\<close>.\<close>

record Comment =
  comment_id :: uuid
  comment_content :: string
  comment_post_id :: uuid
  comment_user_id :: uuid
  comment_user_login :: string
  comment_created_at :: timestamp
  comment_deletion_status :: DeletionStatus

record db =
  posts :: "Post list"
  comments :: "Comment list"
  likes :: "Likes list"

text \<open>The exceptions of the service layer, and the store's rejection of a statement.\<close>

datatype error = NotFoundException | ForbiddenException | StorageError

subsection \<open>The enum \<^verbatim>\<open>LikeStatus\<close>\<close>

text \<open>Modelled from the spec: the enum \<^verbatim>\<open>LikeStatus\<close> of \<^verbatim>\<open>posts/likes/like.enum\<close> is not
  among the sources; its three members are the strings the spec and the SQL text of the
  repositories use: \<^verbatim>\<open>'Like'\<close>, \<^verbatim>\<open>'Dislike'\<close>, \<^verbatim>\<open>'None'\<close>.\<close>

definition LikeStatus_Like :: string where
  "LikeStatus_Like = ''Like''"

definition LikeStatus_Dislike :: string where
  "LikeStatus_Dislike = ''Dislike''"

definition LikeStatus_None :: string where
  "LikeStatus_None = ''None''"

subsection \<open>Strings of the runtime\<close>

text \<open>
  \<^verbatim>\<open>String.prototype.toUpperCase\<close> and \<^verbatim>\<open>toLowerCase\<close> on the ASCII letters; every other
  character is left as it is (the case mappings of the runtime outside ASCII are not
  modelled).
\<close>

definition toUpperCase_char :: "char \<Rightarrow> char" where
  "toUpperCase_char c =
     (case map_of (zip ''abcdefghijklmnopqrstuvwxyz'' ''ABCDEFGHIJKLMNOPQRSTUVWXYZ'') c of
        Some u \<Rightarrow> u
      | None \<Rightarrow> c)"

definition toLowerCase_char :: "char \<Rightarrow> char" where
  "toLowerCase_char c =
     (case map_of (zip ''ABCDEFGHIJKLMNOPQRSTUVWXYZ'' ''abcdefghijklmnopqrstuvwxyz'') c of
        Some l \<Rightarrow> l
      | None \<Rightarrow> c)"

text \<open>The characters \<^verbatim>\<open>toLowerCase\<close> changes.\<close>

definition upper_letters :: string where
  "upper_letters = ''ABCDEFGHIJKLMNOPQRSTUVWXYZ''"

definition toUpperCase :: "string \<Rightarrow> string" where
  "toUpperCase s = map toUpperCase_char s"

definition toLowerCase :: "string \<Rightarrow> string" where
  "toLowerCase s = map toLowerCase_char s"

text \<open>Truthiness of a value that is a string or \<^verbatim>\<open>undefined\<close>: only a non-empty string
  is truthy.\<close>

fun truthy :: "string option \<Rightarrow> bool" where
  "truthy None = False"
| "truthy (Some s) = (s \<noteq> [])"

subsection \<open>Identifiers as the store reads them\<close>

text \<open>
  The columns \<^verbatim>\<open>likes.user_id\<close> and \<^verbatim>\<open>likes.entity_id\<close> are declared \<^verbatim>\<open>uuid\<close> in the entity
  \<^verbatim>\<open>Likes\<close>, and \<^verbatim>\<open>comments.id\<close> is filled by \<^verbatim>\<open>gen_random_uuid()\<close> and joined with
  \<^verbatim>\<open>likes.entity_id\<close>. A parameter compared with such a column is text the store has to read
  as a \<^verbatim>\<open>uuid\<close>: \<open>uuid_in\<close> is the store's input function, which gives the value (as the
  text the store prints: lower case, hyphens after 8, 12, 16 and 20 digits) or nothing, and
  then the statement raises. The input is 32 hexadecimal digits, with an optional hyphen after
  any group of four digits, optionally in braces.
\<close>

definition isxdigit :: "char \<Rightarrow> bool" where
  "isxdigit c = (c \<in> set ''0123456789abcdefABCDEF'')"

definition skip_hyphen :: "string \<Rightarrow> string" where
  "skip_hyphen src =
     (case src of [] \<Rightarrow> [] | c # rest \<Rightarrow> if c = CHR ''-'' then rest else c # rest)"

text \<open>For each of the 16 bytes, whether a hyphen may follow it: after the bytes 1, 3, ..., 13.\<close>

definition hyphen_after :: "bool list" where
  "hyphen_after = map (\<lambda>i. odd i \<and> i < 15) [0..<16]"

fun hex_bytes :: "bool list \<Rightarrow> string \<Rightarrow> (string \<times> string) option" where
  "hex_bytes [] src = Some ([], src)"
| "hex_bytes (h # hs) (a # b # src) =
     (if isxdigit a \<and> isxdigit b
      then (case hex_bytes hs (if h then skip_hyphen src else src) of
              None \<Rightarrow> None
            | Some (digits, rest) \<Rightarrow> Some (a # b # digits, rest))
      else None)"
| "hex_bytes (h # hs) src = None"

definition uuid_out :: "string \<Rightarrow> uuid" where
  "uuid_out digits =
     (let d = toLowerCase digits
      in take 8 d @ ''-'' @ take 4 (drop 8 d) @ ''-'' @ take 4 (drop 12 d) @ ''-''
         @ take 4 (drop 16 d) @ ''-'' @ drop 20 d)"

definition uuid_in :: "string \<Rightarrow> uuid option" where
  "uuid_in text =
     (let braces = (case text of [] \<Rightarrow> False | c # rest \<Rightarrow> c = CHR ''{'');
          src = (if braces then tl text else text)
      in case hex_bytes hyphen_after src of
           None \<Rightarrow> None
         | Some (digits, rest) \<Rightarrow>
             if rest = (if braces then ''}'' else []) then Some (uuid_out digits) else None)"

text \<open>
  The viewer a statement on \<^verbatim>\<open>likes\<close> is bound to, from the optional argument
  \<^verbatim>\<open>userId\<close> / \<^verbatim>\<open>currentUserId\<close>: the methods run the statement only when the argument is
  truthy, and the store raises when it is then no \<^verbatim>\<open>uuid\<close>.
\<close>

definition viewer_id :: "string option \<Rightarrow> error + uuid option" where
  "viewer_id v =
     (case v of
        None \<Rightarrow> Inr None
      | Some u \<Rightarrow>
          if truthy v
          then (case uuid_in u of None \<Rightarrow> Inl StorageError | Some uid \<Rightarrow> Inr (Some uid))
          else Inr None)"


section \<open>Reactions\<close>

subsection \<open>\<^verbatim>\<open>PostsRepository.normalizeLikeStatus\<close>\<close>

definition normalizeLikeStatus :: "string \<Rightarrow> string" where
  "normalizeLikeStatus status =
     (if status = LikeStatus_Like then LikeStatus_Like
      else if status = LikeStatus_Dislike then LikeStatus_Dislike
      else LikeStatus_None)"

subsection \<open>The statements on \<^verbatim>\<open>likes\<close>\<close>

text \<open>The condition \<^verbatim>\<open>user_id = $1 AND entity_id = $2 AND entity_type = ...\<close> shared by
  the statements of both repositories.\<close>

definition like_matches :: "uuid \<Rightarrow> uuid \<Rightarrow> string \<Rightarrow> Likes \<Rightarrow> bool" where
  "like_matches userId entityId entityType l =
     (like_user_id l = userId \<and> like_entity_id l = entityId \<and> like_entity_type l = entityType)"

text \<open>\<^verbatim>\<open>SELECT ... FROM likes WHERE user_id = $1 AND entity_id = $2 AND entity_type = ...\<close>:
  the matching rows, in storage order.\<close>

definition select_likes :: "db \<Rightarrow> uuid \<Rightarrow> uuid \<Rightarrow> string \<Rightarrow> Likes list" where
  "select_likes s userId entityId entityType =
     filter (like_matches userId entityId entityType) (likes s)"

text \<open>\<^verbatim>\<open>DELETE FROM likes WHERE user_id = $1 AND entity_id = $2 AND entity_type = ...\<close>\<close>

definition delete_likes :: "db \<Rightarrow> uuid \<Rightarrow> uuid \<Rightarrow> string \<Rightarrow> db" where
  "delete_likes s userId entityId entityType =
     s\<lparr>likes := filter (\<lambda>l. \<not> like_matches userId entityId entityType l) (likes s)\<rparr>"

text \<open>\<^verbatim>\<open>INSERT INTO likes (...) VALUES (...)\<close>; \<^verbatim>\<open>created_at\<close> is \<^verbatim>\<open>NOW()\<close>, written out
  by the post path and the column's default on the comment path.\<close>

definition insert_like :: "timestamp \<Rightarrow> db \<Rightarrow> uuid \<Rightarrow> string \<Rightarrow> uuid \<Rightarrow> string \<Rightarrow> string \<Rightarrow> db" where
  "insert_like now s userId userLogin entityId entityType status =
     s\<lparr>likes := likes s @
        [\<lparr>like_user_id = userId, like_user_login = userLogin, like_entity_id = entityId,
          like_entity_type = entityType, like_status = status, like_created_at = now\<rparr>]\<rparr>"

text \<open>\<^verbatim>\<open>UPDATE likes SET status = $1 WHERE user_id = $2 AND entity_id = $3 AND entity_type = 'Comment'\<close>\<close>

definition update_like_status :: "db \<Rightarrow> string \<Rightarrow> uuid \<Rightarrow> uuid \<Rightarrow> string \<Rightarrow> db" where
  "update_like_status s status userId entityId entityType =
     s\<lparr>likes := map (\<lambda>l. if like_matches userId entityId entityType l
                          then l\<lparr>like_status := status\<rparr> else l) (likes s)\<rparr>"

text \<open>The counter updates of the query builder:
  \<^verbatim>\<open>update(Post).set({ likesCount: () => 'likesCount - 1' }).where('id = :postId')\<close> and
  its three variants, as one relative update by \<open>delta\<close> of the counter chosen by the
  test \<^verbatim>\<open>status === 'Like'\<close>.\<close>

definition update_counter :: "db \<Rightarrow> uuid \<Rightarrow> string \<Rightarrow> int \<Rightarrow> db" where
  "update_counter s postId status delta =
     s\<lparr>posts := map (\<lambda>p. if post_id p = postId
                          then (if status = ''Like''
                                then p\<lparr>post_likesCount := post_likesCount p + delta\<rparr>
                                else p\<lparr>post_dislikesCount := post_dislikesCount p + delta\<rparr>)
                          else p) (posts s)\<rparr>"

subsection \<open>\<^verbatim>\<open>PostsRepository.updateLikeForPost\<close>\<close>

text \<open>\<^verbatim>\<open>currentLike[0]?.status\<close>: the status of the first selected row, \<^verbatim>\<open>undefined\<close>
  when no row is selected.\<close>

definition currentStatus :: "db \<Rightarrow> uuid \<Rightarrow> uuid \<Rightarrow> string option" where
  "currentStatus s userId postId =
     (case select_likes s userId postId ''Post'' of
        [] \<Rightarrow> None
      | l # _ \<Rightarrow> Some (like_status l))"

definition updateLikeForPost :: "timestamp \<Rightarrow> db \<Rightarrow> uuid \<Rightarrow> uuid \<Rightarrow> string \<Rightarrow> string \<Rightarrow> db" where
  "updateLikeForPost now s postId userId userLogin status =
     (let normalizedStatus = normalizeLikeStatus status;
          cur = currentStatus s userId postId;
          s1 = (case cur of
                  None \<Rightarrow> s
                | Some c \<Rightarrow>
                    if truthy cur
                    then update_counter (delete_likes s userId postId ''Post'') postId c (- 1)
                    else s)
      in if normalizedStatus \<noteq> ''None''
         then update_counter
                (insert_like now s1 userId userLogin postId ''Post'' normalizedStatus)
                postId normalizedStatus 1
         else s1)"

subsection \<open>\<^verbatim>\<open>CommentRepository.updateLikeForComment\<close>\<close>

text \<open>\<^verbatim>\<open>status.charAt(0).toUpperCase() + status.slice(1).toLowerCase()\<close>\<close>

definition capitalize :: "string \<Rightarrow> string" where
  "capitalize status =
     (case status of
        [] \<Rightarrow> []
      | c # cs \<Rightarrow> toUpperCase [c] @ toLowerCase cs)"

definition updateLikeForComment :: "timestamp \<Rightarrow> db \<Rightarrow> uuid \<Rightarrow> uuid \<Rightarrow> string \<Rightarrow> string \<Rightarrow> db" where
  "updateLikeForComment now s commentId userId userLogin status =
     (let normalizedStatus = capitalize status
      in if normalizedStatus = ''None''
         then delete_likes s userId commentId ''Comment''
         else let existing = select_likes s userId commentId ''Comment''
              in if length existing > 0
                 then update_like_status s normalizedStatus userId commentId ''Comment''
                 else insert_like now s userId userLogin commentId ''Comment'' normalizedStatus)"

subsection \<open>Sequences of reaction updates\<close>

text \<open>
  \<^verbatim>\<open>updateLikeForPost\<close> and \<^verbatim>\<open>updateLikeForComment\<close> above are stated on the identifiers the
  store has read. A call as the repository receives it carries text: the first statement of
  either method binds \<^verbatim>\<open>userId\<close> and the entity's id to the \<^verbatim>\<open>uuid\<close> columns of \<^verbatim>\<open>likes\<close>, so
  it raises, before anything is written, when one of them is no \<^verbatim>\<open>uuid\<close>.
\<close>

datatype reaction_call =
    LikePost timestamp string string string string
  | LikeComment timestamp string string string string

fun apply_call :: "db \<Rightarrow> reaction_call \<Rightarrow> db" where
  "apply_call s (LikePost now postId userId userLogin status) =
     (case (uuid_in postId, uuid_in userId) of
        (Some p, Some u) \<Rightarrow> updateLikeForPost now s p u userLogin status
      | _ \<Rightarrow> s)"
| "apply_call s (LikeComment now commentId userId userLogin status) =
     (case (uuid_in commentId, uuid_in userId) of
        (Some c, Some u) \<Rightarrow> updateLikeForComment now s c u userLogin status
      | _ \<Rightarrow> s)"

definition run_calls :: "db \<Rightarrow> reaction_call list \<Rightarrow> db" where
  "run_calls s calls = foldl apply_call s calls"

text \<open>The number of reaction rows of a triple (entityId, entityType, userId).\<close>

definition reaction_rows :: "db \<Rightarrow> uuid \<Rightarrow> string \<Rightarrow> uuid \<Rightarrow> nat" where
  "reaction_rows s entityId entityType userId =
     length (select_likes s userId entityId entityType)"

text \<open>No row stores the status \<^verbatim>\<open>'None'\<close>.\<close>

definition no_None_stored :: "db \<Rightarrow> bool" where
  "no_None_stored s = list_all (\<lambda>l. like_status l \<noteq> ''None'') (likes s)"

text \<open>The first row of a triple of a post, if there is one, stores a non-empty status: the
  test \<^verbatim>\<open>if (currentStatus)\<close> of \<^verbatim>\<open>updateLikeForPost\<close> takes a row with the empty status for
  no row.\<close>

definition status_not_empty :: "db \<Rightarrow> uuid \<Rightarrow> string \<Rightarrow> uuid \<Rightarrow> bool" where
  "status_not_empty s entityId entityType userId =
     (if entityType = ''Post'' then currentStatus s userId entityId \<noteq> Some [] else True)"

text \<open>The counters of the rows of \<^verbatim>\<open>posts\<close> with a given id.\<close>

definition post_counters :: "db \<Rightarrow> uuid \<Rightarrow> (int \<times> int) list" where
  "post_counters s postId =
     map (\<lambda>p. (post_likesCount p, post_dislikesCount p))
         (filter (\<lambda>p. post_id p = postId) (posts s))"

text \<open>The transition rule of the counters: the counter matching \<open>old\<close> goes down by one,
  the counter matching \<open>new\<close> goes up by one; \<^verbatim>\<open>None\<close> matches no counter.\<close>

definition counter_delta :: "string option \<Rightarrow> string \<Rightarrow> string \<Rightarrow> int" where
  "counter_delta old new which =
     (if new = which then 1 else 0) - (if old = Some which then 1 else 0)"

definition transition :: "string option \<Rightarrow> string \<Rightarrow> int \<times> int \<Rightarrow> int \<times> int" where
  "transition old new c =
     (fst c + counter_delta old new ''Like'', snd c + counter_delta old new ''Dislike'')"


text \<open>The effect of \<^verbatim>\<open>update_counter\<close> on the pair of counters of a row.\<close>

definition bump :: "string \<Rightarrow> int \<Rightarrow> int \<times> int \<Rightarrow> int \<times> int" where
  "bump st d c = (if st = ''Like'' then (fst c + d, snd c) else (fst c, snd c + d))"

text \<open>The first half of \<^verbatim>\<open>updateLikeForPost\<close>, up to its test
  \<^verbatim>\<open>normalizedStatus !== 'None'\<close>: the state once the old reaction is removed.\<close>

definition removed :: "db \<Rightarrow> uuid \<Rightarrow> uuid \<Rightarrow> db" where
  "removed s postId userId =
     (case currentStatus s userId postId of
        None \<Rightarrow> s
      | Some c \<Rightarrow>
          if c \<noteq> [] then update_counter (delete_likes s userId postId ''Post'') postId c (- 1)
          else s)"

section \<open>Views\<close>

text \<open>
  A \<^verbatim>\<open>createdAt\<close> of a view is either the \<^verbatim>\<open>Date\<close> object the driver delivers or the
  string \<^verbatim>\<open>toISOString()\<close> makes of it. The text of the string is the runtime's; the model
  keeps the instant it denotes.
\<close>

datatype createdAt_value = DateObject timestamp | IsoString timestamp

definition toISOString :: "timestamp \<Rightarrow> createdAt_value" where
  "toISOString t = IsoString t"

fun is_iso_string :: "createdAt_value \<Rightarrow> bool" where
  "is_iso_string (IsoString t) = True"
| "is_iso_string (DateObject t) = False"

record CommentatorInfo =
  userId :: uuid
  userLogin :: string

record LikesInfo =
  likesCount :: int
  dislikesCount :: int
  myStatus :: string

record CommentOutputType =
  view_id :: uuid
  view_content :: string
  commentatorInfo :: CommentatorInfo
  createdAt :: createdAt_value
  likesInfo :: LikesInfo

record LikeDetails =
  addedAt :: createdAt_value
  liker_userId :: uuid
  liker_login :: string

record ExtendedLikesInfo =
  ext_likesCount :: int
  ext_dislikesCount :: int
  ext_myStatus :: string
  newestLikes :: "LikeDetails list"

record PostViewDto =
  pv_id :: uuid
  pv_title :: string
  pv_shortDescription :: string
  pv_content :: string
  pv_blogId :: uuid
  pv_blogName :: string
  pv_createdAt :: createdAt_value
  extendedLikesInfo :: ExtendedLikesInfo

record 'a Pagination =
  pagesCount :: int
  page :: int
  pageSize :: int
  totalCount :: int
  items :: "'a list"

text \<open>
  \<^verbatim>\<open>GetCommentsQueryDto\<close> and \<^verbatim>\<open>GetPostsQueryDto\<close> are not among the sources; the record
  holds the four properties both repositories read, each possibly \<^verbatim>\<open>undefined\<close>.
\<close>

record QueryDto =
  pageNumber :: "int option"
  q_pageSize :: "int option"
  sortBy :: "string option"
  sortDirection :: "string option"

section \<open>Comments\<close>

subsection \<open>\<^verbatim>\<open>CommentRepository.findById\<close>\<close>

text \<open>\<^verbatim>\<open>SELECT COUNT(*) FROM likes WHERE entity_id = $1 AND entity_type = ... AND status = ...\<close>\<close>

definition count_likes :: "db \<Rightarrow> uuid \<Rightarrow> string \<Rightarrow> string \<Rightarrow> int" where
  "count_likes s entityId entityType status =
     int (length (filter (\<lambda>l. like_entity_id l = entityId \<and> like_entity_type l = entityType
                               \<and> like_status l = status) (likes s)))"

text \<open>
  The first statement compares \<^verbatim>\<open>comments.id\<close> with the parameter and raises when the
  parameter is no \<^verbatim>\<open>uuid\<close>; the statement for the status of the current user runs when a comment
  was found and the user is given.
\<close>

definition findById :: "db \<Rightarrow> string \<Rightarrow> string option \<Rightarrow> error + CommentOutputType option" where
  "findById s commentId currentUserId =
     (case uuid_in commentId of
        None \<Rightarrow> Inl StorageError
      | Some cid \<Rightarrow>
          (case filter (\<lambda>c. comment_id c = cid \<and> comment_deletion_status c = ACTIVE)
                  (comments s) of
             [] \<Rightarrow> Inr None
           | comment # _ \<Rightarrow>
               (case viewer_id currentUserId of
                  Inl e \<Rightarrow> Inl e
                | Inr viewer \<Rightarrow>
                    Inr (Some
                      \<lparr>view_id = comment_id comment,
                       view_content = comment_content comment,
                       commentatorInfo = \<lparr>userId = comment_user_id comment,
                                           userLogin = comment_user_login comment\<rparr>,
                       createdAt = toISOString (comment_created_at comment),
                       likesInfo =
                         \<lparr>likesCount = count_likes s cid ''Comment'' ''Like'',
                          dislikesCount = count_likes s cid ''Comment'' ''Dislike'',
                          myStatus =
                            (case viewer of
                               None \<Rightarrow> LikeStatus_None
                             | Some uid \<Rightarrow>
                                 (case select_likes s uid cid ''Comment'' of
                                    [] \<Rightarrow> LikeStatus_None
                                  | l # _ \<Rightarrow> like_status l))\<rparr>\<rparr>))))"

subsection \<open>\<^verbatim>\<open>CommentRepository.updateContent\<close> and \<^verbatim>\<open>CommentRepository.delete\<close>\<close>

text \<open>The two \<^verbatim>\<open>UPDATE\<close> statements, on the identifier the store has read from the
  parameter.\<close>

definition updateContent :: "db \<Rightarrow> uuid \<Rightarrow> string \<Rightarrow> db" where
  "updateContent s commentId content =
     s\<lparr>comments := map (\<lambda>c. if comment_id c = commentId
                             then c\<lparr>comment_content := content\<rparr> else c) (comments s)\<rparr>"

definition CommentRepository_delete :: "db \<Rightarrow> uuid \<Rightarrow> db" where
  "CommentRepository_delete s commentId =
     s\<lparr>comments := map (\<lambda>c. if comment_id c = commentId
                             then c\<lparr>comment_deletion_status := DELETED\<rparr> else c) (comments s)\<rparr>"

subsection \<open>\<^verbatim>\<open>CommentService.updateComment\<close> and \<^verbatim>\<open>CommentService.deleteComment\<close>\<close>

text \<open>A service call returns the exception it throws, if any, and the state it leaves. An
  error of the store is passed on as it is.\<close>

definition updateComment :: "db \<Rightarrow> string \<Rightarrow> string \<Rightarrow> string \<Rightarrow> error option \<times> db" where
  "updateComment s commentId content requesterId =
     (case findById s commentId None of
        Inl e \<Rightarrow> (Some e, s)
      | Inr None \<Rightarrow> (Some NotFoundException, s)
      | Inr (Some comment) \<Rightarrow>
          if userId (commentatorInfo comment) \<noteq> requesterId
          then (Some ForbiddenException, s)
          else (case uuid_in commentId of
                  None \<Rightarrow> (Some StorageError, s)
                | Some cid \<Rightarrow> (None, updateContent s cid content)))"

definition deleteComment :: "db \<Rightarrow> string \<Rightarrow> string \<Rightarrow> error option \<times> db" where
  "deleteComment s commentId requesterId =
     (case findById s commentId None of
        Inl e \<Rightarrow> (Some e, s)
      | Inr None \<Rightarrow> (Some NotFoundException, s)
      | Inr (Some comment) \<Rightarrow>
          if userId (commentatorInfo comment) \<noteq> requesterId
          then (Some ForbiddenException, s)
          else (case uuid_in commentId of
                  None \<Rightarrow> (Some StorageError, s)
                | Some cid \<Rightarrow> (None, CommentRepository_delete s cid)))"

text \<open>The author of the comment with an identifier: that of the first active row with the
  id, as \<^verbatim>\<open>findById\<close> selects it.\<close>

definition comment_author :: "db \<Rightarrow> uuid \<Rightarrow> uuid option" where
  "comment_author s commentId =
     (case filter (\<lambda>c. comment_id c = commentId \<and> comment_deletion_status c = ACTIVE)
             (comments s) of
        [] \<Rightarrow> None
      | c # _ \<Rightarrow> Some (comment_user_id c))"

subsection \<open>\<^verbatim>\<open>PostsRepository.deletePost\<close>\<close>

text \<open>The updated state and \<^verbatim>\<open>result.affected > 0\<close>.\<close>

definition deletePost :: "db \<Rightarrow> uuid \<Rightarrow> uuid \<Rightarrow> db \<times> bool" where
  "deletePost s postId blogId =
     (s\<lparr>posts := map (\<lambda>p. if post_id p = postId \<and> post_blog_id p = blogId
                           then p\<lparr>post_deletionStatus := DELETED\<rparr> else p) (posts s)\<rparr>,
      length (filter (\<lambda>p. post_id p = postId \<and> post_blog_id p = blogId) (posts s)) > 0)"

section \<open>Listings\<close>

subsection \<open>Pagination and ordering\<close>

text \<open>\<^verbatim>\<open>query.pageNumber || 1\<close>: \<^verbatim>\<open>undefined\<close> and \<^verbatim>\<open>0\<close> are falsy.\<close>

definition or_default :: "int option \<Rightarrow> int \<Rightarrow> int" where
  "or_default v d = (case v of None \<Rightarrow> d | Some n \<Rightarrow> if n = 0 then d else n)"

text \<open>The default of a destructuring, \<^verbatim>\<open>const { pageNumber = 1 } = query\<close>: only
  \<^verbatim>\<open>undefined\<close> takes it.\<close>

definition destructure :: "'a option \<Rightarrow> 'a \<Rightarrow> 'a" where
  "destructure v d = (case v of None \<Rightarrow> d | Some x \<Rightarrow> x)"

text \<open>
  \<^verbatim>\<open>Math.ceil(totalCount / pageSize)\<close>. For \<^verbatim>\<open>pageSize = 0\<close> the runtime gives
  \<^verbatim>\<open>Infinity\<close> or \<^verbatim>\<open>NaN\<close>, which this integer does not represent: the listings are
  modelled for a page size other than 0.
\<close>

definition Math_ceil_div :: "int \<Rightarrow> int \<Rightarrow> int" where
  "Math_ceil_div n m = \<lceil>real_of_int n / real_of_int m\<rceil>"

text \<open>
  \<^verbatim>\<open>ORDER BY key direction\<close>. The store leaves the order of rows with equal keys open and
  settles it statement by statement, so two statements over the same rows can return them
  in different orders. \<open>rank\<close> is what the store settles for one statement: rows with equal
  keys come by the rank of their position in storage. Text is compared by character code. A
  direction other than \<^verbatim>\<open>ASC\<close> and \<^verbatim>\<open>DESC\<close> is no SQL, and the query builder's \<^verbatim>\<open>orderBy\<close>
  accepts no other: the statement fails.
\<close>

definition key_order :: "(nat \<Rightarrow> nat) \<Rightarrow> ('a \<Rightarrow> 'k::linorder) \<Rightarrow> 'a list \<Rightarrow> 'a list" where
  "key_order rank key rows =
     map snd (sort_key (\<lambda>(i, x). (key x, rank i)) (enumerate 0 rows))"

definition order_by ::
  "(nat \<Rightarrow> nat) \<Rightarrow> ('a \<Rightarrow> 'k::linorder) \<Rightarrow> string \<Rightarrow> 'a list \<Rightarrow> error + 'a list" where
  "order_by rank key direction rows =
     (if direction = ''ASC'' then Inr (key_order rank key rows)
      else if direction = ''DESC'' then Inr (rev (key_order rank key rows))
      else Inl StorageError)"

text \<open>\<^verbatim>\<open>LIMIT $2 OFFSET $3\<close>, and \<^verbatim>\<open>skip(...).take(...)\<close>: the store rejects a negative
  limit or offset.\<close>

definition limit_offset :: "int \<Rightarrow> int \<Rightarrow> 'a list \<Rightarrow> error + 'a list" where
  "limit_offset n_limit n_offset rows =
     (if n_limit < 0 \<or> n_offset < 0 then Inl StorageError
      else Inr (take (nat n_limit) (drop (nat n_offset) rows)))"


subsection \<open>\<^verbatim>\<open>CommentRepository.getCommentsForPost\<close>\<close>

text \<open>
  \<^verbatim>\<open>sortableFieldsMap[sortByRaw] || 'created_at'\<close> on the object literal
  \<^verbatim>\<open>{ content: 'content', createdAt: 'created_at' }\<close>. A key the literal inherits from
  \<^verbatim>\<open>Object.prototype\<close> yields a function or an object, which is truthy and whose text in
  \<^verbatim>\<open>ORDER BY\<close> is no SQL: the statement fails.
\<close>

definition Object_prototype_keys :: "string list" where
  "Object_prototype_keys =
     [''constructor'', ''__proto__'', ''hasOwnProperty'', ''isPrototypeOf'',
      ''propertyIsEnumerable'', ''toLocaleString'', ''toString'', ''valueOf'',
      ''__defineGetter__'', ''__defineSetter__'', ''__lookupGetter__'', ''__lookupSetter__'']"

definition comments_sortBy :: "QueryDto \<Rightarrow> error + string" where
  "comments_sortBy q =
     (let sortByRaw = (case sortBy q of
                         None \<Rightarrow> ''createdAt''
                       | Some x \<Rightarrow> if x = [] then ''createdAt'' else x)
      in if sortByRaw = ''content'' then Inr ''content''
         else if sortByRaw = ''createdAt'' then Inr ''created_at''
         else if sortByRaw \<in> set Object_prototype_keys then Inl StorageError
         else Inr ''created_at'')"

text \<open>\<^verbatim>\<open>query.sortDirection?.toUpperCase() === 'ASC' ? 'ASC' : 'DESC'\<close>\<close>

definition comments_sortDirection :: "QueryDto \<Rightarrow> string" where
  "comments_sortDirection q =
     (case sortDirection q of
        None \<Rightarrow> ''DESC''
      | Some d \<Rightarrow> if toUpperCase d = ''ASC'' then ''ASC'' else ''DESC'')"

text \<open>\<^verbatim>\<open>WHERE c.post_id = $1 AND c.deletion_status = 'active'\<close>\<close>

definition active_comments :: "db \<Rightarrow> uuid \<Rightarrow> Comment list" where
  "active_comments s postId =
     filter (\<lambda>c. comment_post_id c = postId \<and> comment_deletion_status c = ACTIVE) (comments s)"

definition order_comments ::
  "(nat \<Rightarrow> nat) \<Rightarrow> string \<Rightarrow> string \<Rightarrow> Comment list \<Rightarrow> error + Comment list" where
  "order_comments rank column direction rows =
     (if column = ''content'' then order_by rank comment_content direction rows
      else order_by rank comment_created_at direction rows)"

text \<open>The item built from a selected row, for the viewer the store has read; the two sums of
  the statement count the reactions of the comment, \<^verbatim>\<open>id\<close> being the key of \<^verbatim>\<open>comments\<close>.\<close>

definition comment_item :: "db \<Rightarrow> uuid option \<Rightarrow> Comment \<Rightarrow> CommentOutputType" where
  "comment_item s viewer c =
     \<lparr>view_id = comment_id c,
      view_content = comment_content c,
      commentatorInfo = \<lparr>userId = comment_user_id c, userLogin = comment_user_login c\<rparr>,
      createdAt = DateObject (comment_created_at c),
      likesInfo =
        \<lparr>likesCount = count_likes s (comment_id c) ''Comment'' ''Like'',
         dislikesCount = count_likes s (comment_id c) ''Comment'' ''Dislike'',
         myStatus =
           (case viewer of
              None \<Rightarrow> ''None''
            | Some uid \<Rightarrow>
                (case select_likes s uid (comment_id c) ''Comment'' of
                   [] \<Rightarrow> ''None''
                 | l # _ \<Rightarrow> if like_status l = [] then ''None'' else like_status l))\<rparr>\<rparr>"

text \<open>\<^verbatim>\<open>Promise.all(comments.map(...))\<close>: one statement on \<^verbatim>\<open>likes\<close> for each selected row
  when \<^verbatim>\<open>currentUserId\<close> is truthy; it raises when that is no \<^verbatim>\<open>uuid\<close>.\<close>

definition comment_items ::
  "db \<Rightarrow> string option \<Rightarrow> Comment list \<Rightarrow> error + CommentOutputType list" where
  "comment_items s currentUserId rows =
     (if rows = [] then Inr []
      else (case viewer_id currentUserId of
              Inl e \<Rightarrow> Inl e
            | Inr viewer \<Rightarrow> Inr (map (comment_item s viewer) rows)))"

text \<open>The listing takes, besides the arguments of the method, the \<open>rank\<close> of its
  \<^verbatim>\<open>ORDER BY\<close> statement.\<close>

definition getCommentsForPost ::
  "(nat \<Rightarrow> nat) \<Rightarrow> db \<Rightarrow> uuid \<Rightarrow> QueryDto \<Rightarrow> string option
     \<Rightarrow> error + CommentOutputType Pagination" where
  "getCommentsForPost rank s postId q currentUserId =
     (let pg = or_default (pageNumber q) 1;
          sz = or_default (q_pageSize q) 10;
          skip = (pg - 1) * sz
      in case comments_sortBy q of
           Inl e \<Rightarrow> Inl e
         | Inr column \<Rightarrow>
             (case order_comments rank column (comments_sortDirection q)
                     (active_comments s postId) of
                Inl e \<Rightarrow> Inl e
              | Inr ordered \<Rightarrow>
                  (case limit_offset sz skip ordered of
                     Inl e \<Rightarrow> Inl e
                   | Inr rows \<Rightarrow>
                       (case comment_items s currentUserId rows of
                          Inl e \<Rightarrow> Inl e
                        | Inr its \<Rightarrow>
                            Inr \<lparr>pagesCount =
                                   Math_ceil_div (int (length (active_comments s postId))) sz,
                                 page = pg,
                                 pageSize = sz,
                                 totalCount = int (length (active_comments s postId)),
                                 items = its\<rparr>))))"

subsection \<open>The listings of \<^verbatim>\<open>PostsRepository\<close>\<close>

text \<open>\<^verbatim>\<open>getUserLikeStatuses\<close>: the selected rows reduced into an object keyed by post.\<close>

definition getUserLikeStatuses :: "db \<Rightarrow> uuid list \<Rightarrow> uuid \<Rightarrow> (uuid \<rightharpoonup> string)" where
  "getUserLikeStatuses s postIds viewer =
     foldl (\<lambda>acc curr. acc(like_entity_id curr \<mapsto> normalizeLikeStatus (like_status curr)))
       Map.empty
       (filter (\<lambda>l. like_entity_id l \<in> set postIds \<and> like_user_id l = viewer
                     \<and> like_entity_type l = ''Post'') (likes s))"

definition like_details :: "Likes \<Rightarrow> LikeDetails" where
  "like_details l =
     \<lparr>addedAt = toISOString (like_created_at l),
      liker_userId = like_user_id l,
      liker_login = like_user_login l\<rparr>"

text \<open>\<^verbatim>\<open>getNewestLikes\<close>: one statement for all the posts of the page, with
  \<^verbatim>\<open>ORDER BY l.created_at DESC LIMIT 3\<close>, reduced into an object keyed by post.\<close>

definition getNewestLikes :: "db \<Rightarrow> uuid list \<Rightarrow> (uuid \<rightharpoonup> LikeDetails list)" where
  "getNewestLikes s postIds =
     foldl (\<lambda>acc curr.
              acc(like_entity_id curr \<mapsto>
                    (case acc (like_entity_id curr) of None \<Rightarrow> [] | Some xs \<Rightarrow> xs)
                    @ [like_details curr]))
       Map.empty
       (take 3 (rev (sort_key like_created_at
          (filter (\<lambda>l. like_entity_id l \<in> set postIds \<and> like_entity_type l = ''Post''
                        \<and> like_status l = ''Like'') (likes s)))))"

text \<open>The statement of \<^verbatim>\<open>findPostById\<close> for one post:
  \<^verbatim>\<open>WHERE entity_id = $1 AND entity_type = 'Post' AND status = 'Like' ORDER BY created_at DESC LIMIT 3\<close>\<close>

definition newest_likes_of_post :: "db \<Rightarrow> uuid \<Rightarrow> LikeDetails list" where
  "newest_likes_of_post s postId =
     map like_details
       (take 3 (rev (sort_key like_created_at
          (filter (\<lambda>l. like_entity_id l = postId \<and> like_entity_type l = ''Post''
                        \<and> like_status l = ''Like'') (likes s)))))"

definition safeSortBy :: "string list \<Rightarrow> QueryDto \<Rightarrow> string" where
  "safeSortBy allowedSortFields q =
     (if destructure (sortBy q) ''createdAt'' \<in> set allowedSortFields
      then destructure (sortBy q) ''createdAt''
      else ''createdAt'')"

text \<open>\<^verbatim>\<open>sortDirection.toUpperCase() as 'ASC' | 'DESC'\<close>: the cast checks nothing.\<close>

definition posts_sortDirection :: "QueryDto \<Rightarrow> string" where
  "posts_sortDirection q = toUpperCase (destructure (sortDirection q) ''desc'')"

text \<open>
  \<^verbatim>\<open>getManyAndCount\<close> with \<^verbatim>\<open>skip\<close>, \<^verbatim>\<open>take\<close> and a join runs two statements. The first
  selects the ids of the page, in the given order and then by the primary column \<^verbatim>\<open>id\<close>
  ascending, with \<^verbatim>\<open>LIMIT\<close> and \<^verbatim>\<open>OFFSET\<close>; the second loads the rows with these ids in the
  given order, the store settling the order of equal keys. \<open>order_by_then_id\<close> is the order
  of the first statement: by \<^verbatim>\<open>id\<close>, then by the key in a way that keeps rows with equal keys in
  place.
\<close>

definition order_by_then_id ::
  "(Post \<Rightarrow> 'k::linorder) \<Rightarrow> string \<Rightarrow> Post list \<Rightarrow> error + Post list" where
  "order_by_then_id key direction rows =
     (if direction = ''ASC'' then Inr (sort_key key (sort_key post_id rows))
      else if direction = ''DESC'' then Inr (rev (sort_key key (rev (sort_key post_id rows))))
      else Inl StorageError)"

definition getMany_by ::
  "(nat \<Rightarrow> nat) \<Rightarrow> (Post \<Rightarrow> 'k::linorder) \<Rightarrow> string \<Rightarrow> int \<Rightarrow> int \<Rightarrow> Post list
     \<Rightarrow> error + Post list" where
  "getMany_by rank key direction n_limit n_offset matching =
     (case order_by_then_id key direction matching of
        Inl e \<Rightarrow> Inl e
      | Inr ids \<Rightarrow>
          (case limit_offset n_limit n_offset ids of
             Inl e \<Rightarrow> Inl e
           | Inr page_rows \<Rightarrow> order_by rank key direction page_rows))"

text \<open>\<^verbatim>\<open>orderBy('blog.name', ...)\<close> for \<^verbatim>\<open>blogName\<close>, \<^verbatim>\<open>orderBy(`post.${safeSortBy}`, ...)\<close>
  for the other fields.\<close>

definition order_posts_then_id :: "string \<Rightarrow> string \<Rightarrow> Post list \<Rightarrow> error + Post list" where
  "order_posts_then_id field direction rows =
     (if field = ''blogName'' then order_by_then_id post_blog_name direction rows
      else if field = ''title'' then order_by_then_id post_title direction rows
      else if field = ''shortDescription''
      then order_by_then_id post_shortDescription direction rows
      else if field = ''content'' then order_by_then_id post_content direction rows
      else order_by_then_id post_createdAt direction rows)"

definition getMany ::
  "(nat \<Rightarrow> nat) \<Rightarrow> string \<Rightarrow> string \<Rightarrow> int \<Rightarrow> int \<Rightarrow> Post list \<Rightarrow> error + Post list" where
  "getMany rank field direction n_limit n_offset matching =
     (if field = ''blogName''
      then getMany_by rank post_blog_name direction n_limit n_offset matching
      else if field = ''title''
      then getMany_by rank post_title direction n_limit n_offset matching
      else if field = ''shortDescription''
      then getMany_by rank post_shortDescription direction n_limit n_offset matching
      else if field = ''content''
      then getMany_by rank post_content direction n_limit n_offset matching
      else getMany_by rank post_createdAt direction n_limit n_offset matching)"

text \<open>The item of a post, for the viewer the store has read.\<close>

definition post_item ::
  "uuid option \<Rightarrow> (uuid \<rightharpoonup> string) \<Rightarrow> (uuid \<rightharpoonup> LikeDetails list) \<Rightarrow> Post \<Rightarrow> PostViewDto" where
  "post_item viewer userLikeStatuses newest post =
     \<lparr>pv_id = post_id post,
      pv_title = post_title post,
      pv_shortDescription = post_shortDescription post,
      pv_content = post_content post,
      pv_blogId = post_blog_id post,
      pv_blogName = post_blog_name post,
      pv_createdAt = toISOString (post_createdAt post),
      extendedLikesInfo =
        \<lparr>ext_likesCount = post_likesCount post,
         ext_dislikesCount = post_dislikesCount post,
         ext_myStatus =
           (case viewer of
              None \<Rightarrow> LikeStatus_None
            | Some uid \<Rightarrow>
                (case userLikeStatuses (post_id post) of
                   None \<Rightarrow> LikeStatus_None
                 | Some st \<Rightarrow> if st = [] then LikeStatus_None else st)),
         newestLikes = (case newest (post_id post) of None \<Rightarrow> [] | Some xs \<Rightarrow> xs)\<rparr>\<rparr>"

text \<open>
  The body the two listings share, from \<^verbatim>\<open>orderBy\<close> on: \<open>matching\<close> are the rows
  the \<^verbatim>\<open>where\<close> clauses select, \<open>field\<close> is \<^verbatim>\<open>safeSortBy\<close>, \<open>rank\<close> is that of the
  statement that loads the rows. \<^verbatim>\<open>getUserLikeStatuses\<close> runs when \<^verbatim>\<open>userId\<close> is truthy and
  raises when that is no \<^verbatim>\<open>uuid\<close>. What the query builder does with \<^verbatim>\<open>take(0)\<close> is not
  modelled.
\<close>

definition posts_page ::
  "(nat \<Rightarrow> nat) \<Rightarrow> db \<Rightarrow> Post list \<Rightarrow> string \<Rightarrow> QueryDto \<Rightarrow> string option
     \<Rightarrow> error + PostViewDto Pagination" where
  "posts_page rank s matching field q userId_arg =
     (let pg = destructure (pageNumber q) 1;
          sz = destructure (q_pageSize q) 10
      in case getMany rank field (posts_sortDirection q) sz ((pg - 1) * sz) matching of
           Inl e \<Rightarrow> Inl e
         | Inr rows \<Rightarrow>
             (case viewer_id userId_arg of
                Inl e \<Rightarrow> Inl e
              | Inr viewer \<Rightarrow>
                  Inr \<lparr>pagesCount = Math_ceil_div (int (length matching)) sz,
                       page = pg,
                       pageSize = sz,
                       totalCount = int (length matching),
                       items =
                         map (post_item viewer
                                (case viewer of
                                   None \<Rightarrow> Map.empty
                                 | Some uid \<Rightarrow> getUserLikeStatuses s (map post_id rows) uid)
                                (getNewestLikes s (map post_id rows)))
                             rows\<rparr>))"

definition blog_posts :: "db \<Rightarrow> uuid \<Rightarrow> Post list" where
  "blog_posts s blogId =
     filter (\<lambda>p. post_blog_id p = blogId \<and> post_deletionStatus p = ACTIVE) (posts s)"

definition getPostsByBlogId ::
  "(nat \<Rightarrow> nat) \<Rightarrow> db \<Rightarrow> uuid \<Rightarrow> QueryDto \<Rightarrow> string option
     \<Rightarrow> error + PostViewDto Pagination" where
  "getPostsByBlogId rank s blogId q userId_arg =
     posts_page rank s (blog_posts s blogId)
       (safeSortBy [''createdAt'', ''title'', ''shortDescription'', ''content''] q) q userId_arg"

definition active_posts :: "db \<Rightarrow> Post list" where
  "active_posts s = filter (\<lambda>p. post_deletionStatus p = ACTIVE) (posts s)"

definition getAllPostsWithPagination ::
  "(nat \<Rightarrow> nat) \<Rightarrow> db \<Rightarrow> QueryDto \<Rightarrow> string option \<Rightarrow> error + PostViewDto Pagination" where
  "getAllPostsWithPagination rank s q userId_arg =
     posts_page rank s (active_posts s)
       (safeSortBy [''createdAt'', ''title'', ''shortDescription'', ''content'', ''blogName''] q)
       q userId_arg"

subsection \<open>\<^verbatim>\<open>PostsRepository.findPostById\<close>\<close>

text \<open>The statement for the status of the viewer runs when \<^verbatim>\<open>userId\<close> is truthy and raises
  when that is no \<^verbatim>\<open>uuid\<close>.\<close>

definition findPostById :: "db \<Rightarrow> uuid \<Rightarrow> string option \<Rightarrow> error + PostViewDto option" where
  "findPostById s postId userId_arg =
     (case filter (\<lambda>p. post_id p = postId \<and> post_deletionStatus p = ACTIVE) (posts s) of
        [] \<Rightarrow> Inr None
      | post # _ \<Rightarrow>
          (case viewer_id userId_arg of
             Inl e \<Rightarrow> Inl e
           | Inr viewer \<Rightarrow>
               Inr (Some
                 \<lparr>pv_id = post_id post,
                  pv_title = post_title post,
                  pv_shortDescription = post_shortDescription post,
                  pv_content = post_content post,
                  pv_blogId = post_blog_id post,
                  pv_blogName = post_blog_name post,
                  pv_createdAt = toISOString (post_createdAt post),
                  extendedLikesInfo =
                    \<lparr>ext_likesCount = post_likesCount post,
                     ext_dislikesCount = post_dislikesCount post,
                     ext_myStatus =
                       (case viewer of
                          None \<Rightarrow> LikeStatus_None
                        | Some uid \<Rightarrow>
                            normalizeLikeStatus
                              (case select_likes s uid postId ''Post'' of
                                 [] \<Rightarrow> LikeStatus_None
                               | l # _ \<Rightarrow>
                                   if like_status l = [] then LikeStatus_None
                                   else like_status l)),
                     newestLikes = newest_likes_of_post s postId\<rparr>\<rparr>)))"

section \<open>Pages of a listing\<close>

text \<open>The items a listing returns for page \<open>p\<close> of a query, nothing when it fails. Each
  page is a call of its own: \<open>ranks p\<close> is the rank of the statement of page \<open>p\<close>.\<close>

definition comments_page_items ::
  "(int \<Rightarrow> nat \<Rightarrow> nat) \<Rightarrow> db \<Rightarrow> uuid \<Rightarrow> QueryDto \<Rightarrow> string option \<Rightarrow> int
     \<Rightarrow> CommentOutputType list" where
  "comments_page_items ranks s postId q viewer p =
     (case getCommentsForPost (ranks p) s postId (q\<lparr>pageNumber := Some p\<rparr>) viewer of
        Inl e \<Rightarrow> []
      | Inr env \<Rightarrow> items env)"

definition blog_page_items ::
  "(int \<Rightarrow> nat \<Rightarrow> nat) \<Rightarrow> db \<Rightarrow> uuid \<Rightarrow> QueryDto \<Rightarrow> string option \<Rightarrow> int
     \<Rightarrow> PostViewDto list" where
  "blog_page_items ranks s blogId q viewer p =
     (case getPostsByBlogId (ranks p) s blogId (q\<lparr>pageNumber := Some p\<rparr>) viewer of
        Inl e \<Rightarrow> []
      | Inr env \<Rightarrow> items env)"

definition all_page_items ::
  "(int \<Rightarrow> nat \<Rightarrow> nat) \<Rightarrow> db \<Rightarrow> QueryDto \<Rightarrow> string option \<Rightarrow> int \<Rightarrow> PostViewDto list" where
  "all_page_items ranks s q viewer p =
     (case getAllPostsWithPagination (ranks p) s (q\<lparr>pageNumber := Some p\<rparr>) viewer of
        Inl e \<Rightarrow> []
      | Inr env \<Rightarrow> items env)"

text \<open>The pages 1 to \<open>n\<close> one after the other, and the slice of a sequence that starts
  at the offset \<open>(p - 1) * sz\<close> and has at most \<open>sz\<close> elements.\<close>

definition pages_upto :: "(int \<Rightarrow> 'a list) \<Rightarrow> int \<Rightarrow> 'a list" where
  "pages_upto page_items n = concat (map (\<lambda>k. page_items (int k)) [1..<Suc (nat n)])"

definition page_slice :: "int \<Rightarrow> int \<Rightarrow> 'a list \<Rightarrow> 'a list" where
  "page_slice p sz xs = take (nat sz) (drop (nat ((p - 1) * sz)) xs)"

text \<open>Whether the rows a comment listing sorts have pairwise distinct sort keys.\<close>

definition comments_keys_distinct :: "db \<Rightarrow> uuid \<Rightarrow> QueryDto \<Rightarrow> bool" where
  "comments_keys_distinct s postId q =
     (case comments_sortBy q of
        Inl e \<Rightarrow> True
      | Inr column \<Rightarrow>
          if column = ''content'' then distinct (map comment_content (active_comments s postId))
          else distinct (map comment_created_at (active_comments s postId)))"

section \<open>Example rows\<close>

definition example_post :: "uuid \<Rightarrow> uuid \<Rightarrow> timestamp \<Rightarrow> int \<Rightarrow> int \<Rightarrow> Post" where
  "example_post pid blogId created n_likes n_dislikes =
     \<lparr>post_id = pid, post_title = ''title'', post_shortDescription = ''short'',
      post_content = ''text'', post_blog_id = blogId, post_blog_name = ''blog'',
      post_likesCount = n_likes, post_dislikesCount = n_dislikes,
      post_createdAt = created, post_deletionStatus = ACTIVE\<rparr>"

definition example_like :: "uuid \<Rightarrow> uuid \<Rightarrow> string \<Rightarrow> string \<Rightarrow> timestamp \<Rightarrow> Likes" where
  "example_like uid entityId entityType st created =
     \<lparr>like_user_id = uid, like_user_login = ''login'', like_entity_id = entityId,
      like_entity_type = entityType, like_status = st, like_created_at = created\<rparr>"

definition example_comment :: "uuid \<Rightarrow> uuid \<Rightarrow> uuid \<Rightarrow> timestamp \<Rightarrow> DeletionStatus \<Rightarrow> Comment" where
  "example_comment cid postId uid created st =
     \<lparr>comment_id = cid, comment_content = ''a comment of twenty characters'',
      comment_post_id = postId, comment_user_id = uid, comment_user_login = ''login'',
      comment_created_at = created, comment_deletion_status = st\<rparr>"

text \<open>A state with three posts of one blog and three comments on the first post, and the
  query for the second page of size two.\<close>

definition example_db :: db where
  "example_db =
     \<lparr>posts = [example_post ''p1'' ''b1'' 1 0 0, example_post ''p2'' ''b1'' 2 0 0,
               example_post ''p3'' ''b1'' 3 0 0],
      comments = [example_comment ''c1'' ''p1'' ''u1'' 1 ACTIVE,
                  example_comment ''c2'' ''p1'' ''u1'' 2 ACTIVE,
                  example_comment ''c3'' ''p1'' ''u1'' 3 ACTIVE],
      likes = []\<rparr>"

definition example_query :: QueryDto where
  "example_query =
     \<lparr>pageNumber = Some 2, q_pageSize = Some 2, sortBy = None, sortDirection = None\<rparr>"

section \<open>Lemmas about the reaction updates\<close>

subsection \<open>Counters\<close>

lemmas status_defs = LikeStatus_Like_def LikeStatus_Dislike_def LikeStatus_None_def

lemma normalizeLikeStatus_cases:
  "normalizeLikeStatus st = ''Like'' \<or> normalizeLikeStatus st = ''Dislike'' \<or> normalizeLikeStatus st = ''None''"
  by (simp add: normalizeLikeStatus_def status_defs)

lemma counters_of_updated_rows:
  "map (\<lambda>p. (post_likesCount p, post_dislikesCount p))
       (filter (\<lambda>p. post_id p = Q)
          (map (\<lambda>p. if post_id p = P
                     then (if st = ''Like''
                           then p\<lparr>post_likesCount := post_likesCount p + d\<rparr>
                           else p\<lparr>post_dislikesCount := post_dislikesCount p + d\<rparr>)
                     else p) ps)) =
   (if Q = P
    then map (bump st d) (map (\<lambda>p. (post_likesCount p, post_dislikesCount p)) (filter (\<lambda>p. post_id p = Q) ps))
    else map (\<lambda>p. (post_likesCount p, post_dislikesCount p)) (filter (\<lambda>p. post_id p = Q) ps))"
  by (induction ps) (auto simp: bump_def)

lemma post_counters_update_counter:
  "post_counters (update_counter s P st d) Q =
     (if Q = P then map (bump st d) (post_counters s P) else post_counters s Q)"
  unfolding post_counters_def update_counter_def
  using counters_of_updated_rows [of Q P st d "posts s"] by simp

lemma post_counters_delete_likes [simp]:
  "post_counters (delete_likes s u e t) Q = post_counters s Q"
  by (simp add: post_counters_def delete_likes_def)

lemma post_counters_insert_like [simp]:
  "post_counters (insert_like now s u l e t st) Q = post_counters s Q"
  by (simp add: post_counters_def insert_like_def)

lemma transition_fun:
  "transition old new = (\<lambda>c. (fst c + counter_delta old new ''Like'', snd c + counter_delta old new ''Dislike''))"
  by (rule ext) (simp add: transition_def)

lemma bump_fun:
  "bump st d = (\<lambda>c. if st = ''Like'' then (fst c + d, snd c) else (fst c, snd c + d))"
  by (rule ext) (simp add: bump_def)

lemma post_counters_updateLikeForPost:
  assumes "currentStatus s U P \<in> {None, Some ''Like'', Some ''Dislike''}"
  shows "post_counters (updateLikeForPost now s P U login st) Q =
           (if Q = P
            then map (transition (currentStatus s U P) (normalizeLikeStatus st)) (post_counters s P)
            else post_counters s Q)"
  using assms normalizeLikeStatus_cases [of st]
  by (auto simp: updateLikeForPost_def Let_def post_counters_update_counter bump_fun
        transition_fun counter_delta_def comp_def split: option.splits)

subsection \<open>The rows a statement selects after an update\<close>

lemma like_matches_same:
  "like_matches u' e' t' l \<Longrightarrow> like_matches u e t l \<Longrightarrow> u' = u \<and> e' = e \<and> t' = t"
  by (auto simp: like_matches_def)

lemma like_matches_status_update [simp]:
  "like_matches u e t (l\<lparr>like_status := st\<rparr>) = like_matches u e t l"
  by (simp add: like_matches_def)

lemma select_likes_delete_likes:
  "select_likes (delete_likes s u e t) u' e' t' =
     (if u' = u \<and> e' = e \<and> t' = t then [] else select_likes s u' e' t')"
proof -
  have "filter (like_matches u' e' t') (filter (\<lambda>l. \<not> like_matches u e t l) ls) =
          (if u' = u \<and> e' = e \<and> t' = t then [] else filter (like_matches u' e' t') ls)" for ls
    by (induction ls) (auto dest: like_matches_same)
  then show ?thesis
    by (simp add: select_likes_def delete_likes_def)
qed

lemma select_likes_insert_like:
  "select_likes (insert_like now s u login e t st) u' e' t' =
     select_likes s u' e' t' @
       (if u' = u \<and> e' = e \<and> t' = t
        then [\<lparr>like_user_id = u, like_user_login = login, like_entity_id = e,
               like_entity_type = t, like_status = st, like_created_at = now\<rparr>]
        else [])"
  by (auto simp: select_likes_def insert_like_def like_matches_def)

lemma select_likes_update_like_status:
  "select_likes (update_like_status s st u e t) u' e' t' =
     (if u' = u \<and> e' = e \<and> t' = t
      then map (\<lambda>l. l\<lparr>like_status := st\<rparr>) (select_likes s u e t)
      else select_likes s u' e' t')"
proof -
  have "filter (like_matches u' e' t')
          (map (\<lambda>l. if like_matches u e t l then l\<lparr>like_status := st\<rparr> else l) ls) =
        (if u' = u \<and> e' = e \<and> t' = t
         then map (\<lambda>l. l\<lparr>like_status := st\<rparr>) (filter (like_matches u e t) ls)
         else filter (like_matches u' e' t') ls)" for ls
    by (induction ls) (auto dest: like_matches_same)
  then show ?thesis
    by (simp add: select_likes_def update_like_status_def)
qed

lemma select_likes_update_counter [simp]:
  "select_likes (update_counter s P st d) u e t = select_likes s u e t"
  by (simp add: select_likes_def update_counter_def)

lemma currentStatus_None_iff:
  "currentStatus s U P = None \<longleftrightarrow> select_likes s U P ''Post'' = []"
  by (simp add: currentStatus_def split: list.splits)

lemma select_likes_updateLikeForPost:
  assumes "currentStatus s U P \<noteq> Some []"
  shows "select_likes (updateLikeForPost now s P U login st) U P ''Post'' =
           (if normalizeLikeStatus st = ''None'' then []
            else [\<lparr>like_user_id = U, like_user_login = login, like_entity_id = P,
                   like_entity_type = ''Post'', like_status = normalizeLikeStatus st,
                   like_created_at = now\<rparr>])"
  using assms
  by (auto simp: updateLikeForPost_def Let_def select_likes_delete_likes
        select_likes_insert_like currentStatus_None_iff split: option.splits)

lemma select_likes_updateLikeForPost_other:
  assumes "\<not> (u = U \<and> e = P \<and> t = ''Post'')"
  shows "select_likes (updateLikeForPost now s P U login st) u e t = select_likes s u e t"
  using assms
  by (auto simp: updateLikeForPost_def Let_def select_likes_delete_likes
        select_likes_insert_like split: option.splits)

lemma currentStatus_updateLikeForPost:
  assumes "currentStatus s U P \<noteq> Some []"
  shows "currentStatus (updateLikeForPost now s P U login st) U P =
           (if normalizeLikeStatus st = ''None'' then None else Some (normalizeLikeStatus st))"
  using select_likes_updateLikeForPost [OF assms, of now login st]
  by (simp add: currentStatus_def)


subsection \<open>Stored statuses and the number of rows of a triple\<close>

lemma likes_update_counter [simp]: "likes (update_counter s P st d) = likes s"
  by (simp add: update_counter_def)

lemma no_None_stored_update_counter [simp]:
  "no_None_stored (update_counter s P st d) = no_None_stored s"
  by (simp add: no_None_stored_def)

lemma no_None_stored_delete_likes:
  "no_None_stored s \<Longrightarrow> no_None_stored (delete_likes s u e t)"
  by (simp add: no_None_stored_def delete_likes_def list_all_iff)

lemma no_None_stored_insert_like:
  "no_None_stored (insert_like now s u login e t st) = (no_None_stored s \<and> st \<noteq> ''None'')"
  by (auto simp: no_None_stored_def insert_like_def)

lemma no_None_stored_update_like_status:
  "no_None_stored s \<Longrightarrow> st \<noteq> ''None'' \<Longrightarrow> no_None_stored (update_like_status s st u e t)"
  by (auto simp: no_None_stored_def update_like_status_def list_all_iff)

lemma no_None_stored_updateLikeForPost:
  "no_None_stored s \<Longrightarrow> no_None_stored (updateLikeForPost now s P U login st)"
  using normalizeLikeStatus_cases [of st]
  by (auto simp: updateLikeForPost_def Let_def no_None_stored_insert_like
        no_None_stored_delete_likes split: option.splits)

lemma no_None_stored_updateLikeForComment:
  "no_None_stored s \<Longrightarrow> no_None_stored (updateLikeForComment now s C U login st)"
  by (auto simp: updateLikeForComment_def Let_def no_None_stored_insert_like
        no_None_stored_delete_likes no_None_stored_update_like_status)

lemma select_likes_updateLikeForComment_other:
  assumes "\<not> (u = U \<and> e = C \<and> t = ''Comment'')"
  shows "select_likes (updateLikeForComment now s C U login st) u e t = select_likes s u e t"
  using assms
  by (auto simp: updateLikeForComment_def Let_def select_likes_delete_likes
        select_likes_insert_like select_likes_update_like_status)

text \<open>The three facts a call keeps true of a triple.\<close>

lemma triple_updateLikeForPost:
  assumes rows: "reaction_rows s e t u \<le> 1" and ok: "status_not_empty s e t u"
  shows "reaction_rows (updateLikeForPost now s P U login st) e t u \<le> 1
         \<and> status_not_empty (updateLikeForPost now s P U login st) e t u"
proof (cases "u = U \<and> e = P \<and> t = ''Post''")
  case True
  with ok have cur: "currentStatus s U P \<noteq> Some []"
    by (simp add: status_not_empty_def)
  have "normalizeLikeStatus st \<noteq> []"
    using normalizeLikeStatus_cases [of st] by auto
  then show ?thesis
    using True select_likes_updateLikeForPost [OF cur, of now login st]
      currentStatus_updateLikeForPost [OF cur, of now login st]
    by (simp add: reaction_rows_def status_not_empty_def)
next
  case False
  then have same: "select_likes (updateLikeForPost now s P U login st) u e t = select_likes s u e t"
    by (rule select_likes_updateLikeForPost_other)
  have "currentStatus (updateLikeForPost now s P U login st) u e = currentStatus s u e"
    if "t = ''Post''"
    using same that by (simp add: currentStatus_def)
  then show ?thesis
    using rows ok same by (simp add: reaction_rows_def status_not_empty_def)
qed

lemma reaction_rows_updateLikeForComment:
  assumes "reaction_rows s e t u \<le> 1"
  shows "reaction_rows (updateLikeForComment now s C U login st) e t u \<le> 1"
  using assms
  by (auto simp: reaction_rows_def updateLikeForComment_def Let_def select_likes_delete_likes
        select_likes_insert_like select_likes_update_like_status)

lemma status_not_empty_updateLikeForComment:
  assumes "status_not_empty s e t u"
  shows "status_not_empty (updateLikeForComment now s C U login st) e t u"
proof (cases "t = ''Post''")
  case True
  then have "select_likes (updateLikeForComment now s C U login st) u e ''Post'' =
             select_likes s u e ''Post''"
    by (simp add: select_likes_updateLikeForComment_other)
  with assms True show ?thesis
    by (simp add: status_not_empty_def currentStatus_def)
next
  case False
  then show ?thesis by (simp add: status_not_empty_def)
qed

lemma apply_call_invariant:
  assumes "reaction_rows s e t u \<le> 1" and "no_None_stored s" and "status_not_empty s e t u"
  shows "reaction_rows (apply_call s c) e t u \<le> 1 \<and> no_None_stored (apply_call s c)
         \<and> status_not_empty (apply_call s c) e t u"
proof (cases c)
  case (LikePost now postId userId login st)
  show ?thesis
  proof (cases "uuid_in postId")
    case None
    with LikePost assms show ?thesis by simp
  next
    case p: (Some P)
    show ?thesis
    proof (cases "uuid_in userId")
      case None
      with LikePost p assms show ?thesis by simp
    next
      case (Some U)
      with LikePost p show ?thesis
        using triple_updateLikeForPost [OF assms(1) assms(3), of now P U login st]
          no_None_stored_updateLikeForPost [OF assms(2), of now P U login st]
        by simp
    qed
  qed
next
  case (LikeComment now commentId userId login st)
  show ?thesis
  proof (cases "uuid_in commentId")
    case None
    with LikeComment assms show ?thesis by simp
  next
    case c: (Some C)
    show ?thesis
    proof (cases "uuid_in userId")
      case None
      with LikeComment c assms show ?thesis by simp
    next
      case (Some U)
      with LikeComment c show ?thesis
        using reaction_rows_updateLikeForComment [OF assms(1), of now C U login st]
          no_None_stored_updateLikeForComment [OF assms(2), of now C U login st]
          status_not_empty_updateLikeForComment [OF assms(3), of now C U login st]
        by simp
    qed
  qed
qed

lemma run_calls_invariant:
  assumes "reaction_rows s e t u \<le> 1" and "no_None_stored s" and "status_not_empty s e t u"
  shows "reaction_rows (run_calls s calls) e t u \<le> 1 \<and> no_None_stored (run_calls s calls)
         \<and> status_not_empty (run_calls s calls) e t u"
  using assms unfolding run_calls_def
proof (induction calls arbitrary: s)
  case Nil
  then show ?case by simp
next
  case (Cons c cs)
  have "reaction_rows (apply_call s c) e t u \<le> 1 \<and> no_None_stored (apply_call s c)
        \<and> status_not_empty (apply_call s c) e t u"
    using Cons.prems by (rule apply_call_invariant)
  then show ?case using Cons.IH [of "apply_call s c"] by simp
qed

text \<open>Every state reached from an empty table of reactions has at most one row for each
  triple and stores no \<^verbatim>\<open>'None'\<close>.\<close>

lemma run_calls_from_empty:
  assumes "likes s = []"
  shows "reaction_rows (run_calls s calls) e t u \<le> 1 \<and> no_None_stored (run_calls s calls)"
proof -
  have "reaction_rows s e t u \<le> 1" and "no_None_stored s" and "status_not_empty s e t u"
    using assms
    by (simp_all add: no_None_stored_def reaction_rows_def select_likes_def
          status_not_empty_def currentStatus_def)
  then show ?thesis using run_calls_invariant by blast
qed

subsection \<open>Evaluating \<open>uuid_in\<close>\<close>

lemma hyphen_after_eval:
  "hyphen_after = [False, True, False, True, False, True, False, True,
                   False, True, False, True, False, True, False, False]"
  by code_simp

lemmas uuid_in_eval = uuid_in_def uuid_out_def isxdigit_def skip_hyphen_def toLowerCase_def
  toLowerCase_char_def hyphen_after_eval

subsection \<open>Two calls in a row\<close>

lemma delete_likes_twice:
  "delete_likes (delete_likes s u e t) u e t = delete_likes s u e t"
  by (simp add: delete_likes_def)

lemma update_like_status_twice:
  "update_like_status (update_like_status s st u e t) st u e t = update_like_status s st u e t"
  by (simp add: update_like_status_def comp_def if_distrib cong: if_cong)

lemma update_like_status_no_rows:
  assumes "select_likes s u e t = []"
  shows "update_like_status (insert_like now s u login e t st) st u e t =
           insert_like now s u login e t st"
proof -
  have "\<forall>l \<in> set (likes s). \<not> like_matches u e t l"
    using assms by (simp add: select_likes_def filter_empty_conv)
  then have "map (\<lambda>l. if like_matches u e t l then l\<lparr>like_status := st\<rparr> else l) (likes s) = likes s"
    by (simp add: map_idI)
  then show ?thesis
    by (simp add: update_like_status_def insert_like_def like_matches_def)
qed

lemma updateLikeForComment_twice:
  "updateLikeForComment t2 (updateLikeForComment t1 s C U login st) C U login st =
     updateLikeForComment t1 s C U login st"
proof (cases "capitalize st = ''None''")
  case True
  then show ?thesis by (simp add: updateLikeForComment_def delete_likes_twice)
next
  case notNone: False
  show ?thesis
  proof (cases "select_likes s U C ''Comment''")
    case Nil
    then show ?thesis
      using notNone update_like_status_no_rows [OF Nil]
      by (simp add: updateLikeForComment_def select_likes_insert_like)
  next
    case (Cons l ls)
    then show ?thesis
      using notNone
      by (simp add: updateLikeForComment_def select_likes_update_like_status
            update_like_status_twice)
  qed
qed


lemma delete_likes_update_counter:
  "delete_likes (update_counter s P st d) u e t = update_counter (delete_likes s u e t) P st d"
  by (simp add: delete_likes_def update_counter_def)

lemma delete_likes_insert_like:
  "delete_likes (insert_like now s u login e t st) u e t = delete_likes s u e t"
  by (simp add: delete_likes_def insert_like_def like_matches_def)

lemma delete_likes_no_rows:
  assumes "select_likes s u e t = []"
  shows "delete_likes s u e t = s"
proof -
  have "\<forall>l \<in> set (likes s). \<not> like_matches u e t l"
    using assms by (simp add: select_likes_def filter_empty_conv)
  then have "filter (\<lambda>l. \<not> like_matches u e t l) (likes s) = likes s"
    by (simp add: filter_id_conv)
  then show ?thesis by (simp add: delete_likes_def)
qed

lemma update_counter_undo:
  "update_counter (update_counter s P st 1) P st (- 1) = s"
proof -
  have "map ((\<lambda>p. if post_id p = P
                    then (if st = ''Like''
                          then p\<lparr>post_likesCount := post_likesCount p + (- 1)\<rparr>
                          else p\<lparr>post_dislikesCount := post_dislikesCount p + (- 1)\<rparr>)
                    else p) \<circ>
             (\<lambda>p. if post_id p = P
                    then (if st = ''Like''
                          then p\<lparr>post_likesCount := post_likesCount p + 1\<rparr>
                          else p\<lparr>post_dislikesCount := post_dislikesCount p + 1\<rparr>)
                    else p)) ps = ps" for ps :: "Post list"
    by (rule map_idI) simp
  then show ?thesis by (simp add: update_counter_def)
qed

lemma updateLikeForPost_removed:
  "updateLikeForPost now s P U login st =
     (if normalizeLikeStatus st \<noteq> ''None''
      then update_counter
             (insert_like now (removed s P U) U login P ''Post'' (normalizeLikeStatus st))
             P (normalizeLikeStatus st) 1
      else removed s P U)"
  by (simp add: updateLikeForPost_def removed_def Let_def split: option.splits)

lemma select_likes_removed:
  assumes "currentStatus s U P \<noteq> Some []"
  shows "select_likes (removed s P U) U P ''Post'' = []"
  using assms
  by (auto simp: removed_def select_likes_delete_likes currentStatus_None_iff
        split: option.splits)

lemma removed_removed:
  assumes "currentStatus s U P \<noteq> Some []"
  shows "removed (removed s P U) P U = removed s P U"
proof -
  have "currentStatus (removed s P U) U P = None"
    using select_likes_removed [OF assms] by (simp add: currentStatus_None_iff)
  then show ?thesis by (simp add: removed_def [of "removed s P U"])
qed

lemma removed_after_insert:
  assumes "currentStatus s U P \<noteq> Some []" and "n \<noteq> []"
  shows "removed (update_counter (insert_like t1 (removed s P U) U login P ''Post'' n) P n 1) P U =
           removed s P U"
proof -
  let ?r = "removed s P U"
  let ?s1 = "update_counter (insert_like t1 ?r U login P ''Post'' n) P n 1"
  have sel: "select_likes ?r U P ''Post'' = []"
    by (rule select_likes_removed [OF assms(1)])
  have "currentStatus ?s1 U P = Some n"
    by (simp add: currentStatus_def select_likes_insert_like sel)
  then have "removed ?s1 P U = update_counter (delete_likes ?s1 U P ''Post'') P n (- 1)"
    using assms(2) by (simp add: removed_def [of ?s1])
  also have "\<dots> = update_counter (update_counter (delete_likes ?r U P ''Post'') P n 1) P n (- 1)"
    by (simp add: delete_likes_update_counter delete_likes_insert_like)
  also have "\<dots> = delete_likes ?r U P ''Post''"
    by (rule update_counter_undo)
  also have "\<dots> = ?r"
    by (rule delete_likes_no_rows [OF sel])
  finally show ?thesis .
qed

lemma updateLikeForPost_twice:
  assumes "currentStatus s U P \<noteq> Some []"
  shows "updateLikeForPost t2 (updateLikeForPost t1 s P U login st) P U login st =
           updateLikeForPost t2 s P U login st"
proof (cases "normalizeLikeStatus st = ''None''")
  case True
  then show ?thesis
    by (simp add: updateLikeForPost_removed removed_removed [OF assms])
next
  case False
  then have "normalizeLikeStatus st \<noteq> []"
    using normalizeLikeStatus_cases [of st] by auto
  then show ?thesis
    using False
    by (simp add: updateLikeForPost_removed removed_after_insert [OF assms])
qed

subsection \<open>Case mapping\<close>

lemma toLowerCase_char_cases:
  "toLowerCase_char c = c \<or> c \<in> set upper_letters"
proof (cases "map_of (zip ''ABCDEFGHIJKLMNOPQRSTUVWXYZ'' ''abcdefghijklmnopqrstuvwxyz'') c")
  case None
  then show ?thesis by (simp add: toLowerCase_char_def)
next
  case (Some l)
  then have "(c, l) \<in> set (zip ''ABCDEFGHIJKLMNOPQRSTUVWXYZ'' ''abcdefghijklmnopqrstuvwxyz'')"
    by (rule map_of_SomeD)
  then have "c \<in> set ''ABCDEFGHIJKLMNOPQRSTUVWXYZ''"
    by (rule set_zip_leftD)
  then have "c \<in> set upper_letters"
    unfolding upper_letters_def .
  then show ?thesis by (rule disjI2)
qed

lemma upper_letters_case:
  "list_all (\<lambda>c. toUpperCase_char (toLowerCase_char c) = toUpperCase_char c
              \<and> toLowerCase_char (toLowerCase_char c) = toLowerCase_char c) upper_letters"
  by (simp add: upper_letters_def toUpperCase_char_def toLowerCase_char_def)

lemma upper_lower_char: "toUpperCase_char (toLowerCase_char c) = toUpperCase_char c"
proof (cases "toLowerCase_char c = c")
  case True
  then show ?thesis by simp
next
  case False
  then have "c \<in> set upper_letters" using toLowerCase_char_cases [of c] by blast
  then show ?thesis using upper_letters_case unfolding list_all_iff by blast
qed

lemma lower_lower_char: "toLowerCase_char (toLowerCase_char c) = toLowerCase_char c"
proof (cases "toLowerCase_char c = c")
  case True
  then show ?thesis by simp
next
  case False
  then have "c \<in> set upper_letters" using toLowerCase_char_cases [of c] by blast
  then show ?thesis using upper_letters_case unfolding list_all_iff by blast
qed

lemma capitalize_toLowerCase: "capitalize (toLowerCase st) = capitalize st"
  by (cases st) (simp_all add: capitalize_def toLowerCase_def toUpperCase_def upper_lower_char lower_lower_char)

lemma capitalize_spelling:
  "toLowerCase st = ''like'' \<Longrightarrow> capitalize st = ''Like''"
  "toLowerCase st = ''dislike'' \<Longrightarrow> capitalize st = ''Dislike''"
  "toLowerCase st = ''none'' \<Longrightarrow> capitalize st = ''None''"
  using capitalize_toLowerCase [of st]
  by (simp_all add: capitalize_def toUpperCase_def toLowerCase_def toUpperCase_char_def toLowerCase_char_def)

lemma posts_updateLikeForPost_now:
  "posts (updateLikeForPost t2 s P U login st) = posts (updateLikeForPost t1 s P U login st)"
  by (simp add: updateLikeForPost_removed update_counter_def insert_like_def)

lemma comments_updateLikeForPost_now:
  "comments (updateLikeForPost t2 s P U login st) = comments (updateLikeForPost t1 s P U login st)"
  by (simp add: updateLikeForPost_removed update_counter_def insert_like_def)

lemma likes_updateLikeForPost_now:
  "map (like_created_at_update (\<lambda>_. 0)) (likes (updateLikeForPost t2 s P U login st)) =
   map (like_created_at_update (\<lambda>_. 0)) (likes (updateLikeForPost t1 s P U login st))"
  by (simp add: updateLikeForPost_removed update_counter_def insert_like_def)

lemma updateLikeForComment_spelling:
  assumes "toLowerCase st = toLowerCase st'"
  shows "updateLikeForComment now s C U login st = updateLikeForComment now s C U login st'"
proof -
  have "capitalize st = capitalize st'"
    using capitalize_toLowerCase [of st] capitalize_toLowerCase [of st'] assms by simp
  then show ?thesis by (simp add: updateLikeForComment_def)
qed

text \<open>What a second call with the same status does keep on a post: posts and their counters,
  comments, and the reaction rows up to the creation time of the row it inserts again.\<close>

lemma updateLikeForPost_twice_but_created_at:
  assumes "currentStatus s U P \<noteq> Some []"
  shows "posts (updateLikeForPost t2 (updateLikeForPost t1 s P U login st) P U login st) =
           posts (updateLikeForPost t1 s P U login st)
         \<and> comments (updateLikeForPost t2 (updateLikeForPost t1 s P U login st) P U login st) =
           comments (updateLikeForPost t1 s P U login st)
         \<and> map (like_created_at_update (\<lambda>_. 0))
             (likes (updateLikeForPost t2 (updateLikeForPost t1 s P U login st) P U login st)) =
           map (like_created_at_update (\<lambda>_. 0)) (likes (updateLikeForPost t1 s P U login st))"
  unfolding updateLikeForPost_twice [OF assms]
  by (intro conjI posts_updateLikeForPost_now comments_updateLikeForPost_now
        likes_updateLikeForPost_now)

section \<open>Lemmas about comments and listings\<close>

lemma findById_no_uuid:
  "uuid_in commentId = None \<Longrightarrow> findById s commentId viewer = Inl StorageError"
  by (simp add: findById_def)

lemma active_rows_empty_iff:
  "filter (\<lambda>c. comment_id c = cid \<and> comment_deletion_status c = ACTIVE) (comments s) = []
   \<longleftrightarrow> (\<forall>c \<in> set (comments s). comment_id c = cid \<longrightarrow> comment_deletion_status c = DELETED)"
  by (auto simp: filter_empty_conv intro: DeletionStatus.exhaust)

lemma findById_None_iff:
  assumes "uuid_in commentId = Some cid"
  shows "findById s commentId None = Inr None \<longleftrightarrow>
     (\<forall>c \<in> set (comments s). comment_id c = cid \<longrightarrow> comment_deletion_status c = DELETED)"
proof -
  have "findById s commentId None = Inr None \<longleftrightarrow>
      filter (\<lambda>c. comment_id c = cid \<and> comment_deletion_status c = ACTIVE) (comments s) = []"
    using assms
    by (cases "filter (\<lambda>c. comment_id c = cid \<and> comment_deletion_status c = ACTIVE) (comments s)")
       (simp_all add: findById_def viewer_id_def)
  then show ?thesis by (simp add: active_rows_empty_iff)
qed

lemma findById_author:
  assumes "uuid_in commentId = Some cid"
  shows "map_sum id (map_option (\<lambda>v. userId (commentatorInfo v))) (findById s commentId None) =
           Inr (comment_author s cid)"
  using assms
  by (simp add: findById_def comment_author_def viewer_id_def split: list.splits)

lemma comments_sortDirection_cases:
  "comments_sortDirection q = ''ASC'' \<or> comments_sortDirection q = ''DESC''"
  by (simp add: comments_sortDirection_def split: option.splits)

lemma comments_sortDirection_ASC_iff:
  "comments_sortDirection q = ''ASC'' \<longleftrightarrow> (\<exists>d. sortDirection q = Some d \<and> toUpperCase d = ''ASC'')"
  by (auto simp: comments_sortDirection_def split: option.splits)

lemma posts_sortDirection_undefined:
  "sortDirection q = None \<Longrightarrow> posts_sortDirection q = ''DESC''"
  by (simp add: posts_sortDirection_def destructure_def toUpperCase_def toUpperCase_char_def)

lemma posts_sortDirection_Some:
  "sortDirection q = Some d \<Longrightarrow> posts_sortDirection q = toUpperCase d"
  by (simp add: posts_sortDirection_def destructure_def)

lemma getCommentsForPost_items_createdAt:
  assumes "getCommentsForPost rank s postId q viewer = Inr env"
  shows "list_all (\<lambda>i. \<not> is_iso_string (createdAt i)) (items env)"
  using assms
  by (auto simp: getCommentsForPost_def Let_def list_all_iff comment_item_def comment_items_def
        split: sum.splits if_splits)

section \<open>Lemmas about pages\<close>

lemma concat_slices:
  "concat (map (\<lambda>k. take n (drop ((k - 1) * n) xs)) [1..<Suc m]) = take (m * n) xs"
proof (induction m)
  case 0
  then show ?case by simp
next
  case (Suc m)
  have "[1..<Suc (Suc m)] = [1..<Suc m] @ [Suc m]"
    by simp
  then have "concat (map (\<lambda>k. take n (drop ((k - 1) * n) xs)) [1..<Suc (Suc m)]) =
             take (m * n) xs @ take n (drop (m * n) xs)"
    using Suc.IH by simp
  also have "\<dots> = take (m * n + n) xs"
    by (simp add: take_add)
  finally show ?case by (simp add: add.commute)
qed

lemma Math_ceil_div_cover:
  assumes "0 < sz"
  shows "n \<le> Math_ceil_div n sz * sz"
proof -
  have "real_of_int n / real_of_int sz \<le> real_of_int (Math_ceil_div n sz)"
    unfolding Math_ceil_div_def by (rule le_of_int_ceiling)
  then have "real_of_int n \<le> real_of_int (Math_ceil_div n sz) * real_of_int sz"
    using assms by (simp add: pos_divide_le_eq)
  then have "real_of_int n \<le> real_of_int (Math_ceil_div n sz * sz)"
    by simp
  then show ?thesis by (simp only: of_int_le_iff)
qed

lemma Math_ceil_div_nonneg:
  assumes "0 < sz" and "0 \<le> n"
  shows "0 \<le> Math_ceil_div n sz"
proof -
  have "0 \<le> real_of_int n / real_of_int sz" using assms by simp
  then show ?thesis unfolding Math_ceil_div_def by (simp add: ceiling_mono order_trans)
qed

lemma page_slice_nat:
  assumes "0 < sz" and "0 < k"
  shows "page_slice (int k) sz xs = take (nat sz) (drop ((k - 1) * nat sz) xs)"
proof -
  have "nat ((int k - 1) * sz) = (k - 1) * nat sz"
    using assms by (simp add: nat_mult_distrib of_nat_diff)
  then show ?thesis by (simp add: page_slice_def)
qed

lemma page_slice_map: "page_slice p sz (map g xs) = map g (page_slice p sz xs)"
  by (simp add: page_slice_def take_map drop_map)

lemma length_page_slice: "length (page_slice p sz xs) \<le> nat sz"
  by (simp add: page_slice_def)

lemma pages_upto_slices:
  assumes sz: "0 < sz"
    and pages: "\<And>p. 0 < p \<Longrightarrow> f p = map g (page_slice p sz xs)"
    and cover: "int (length xs) \<le> n * sz"
  shows "pages_upto f n = map g xs"
proof -
  have each: "f (int k) = map g (take (nat sz) (drop ((k - 1) * nat sz) xs))"
    if "1 \<le> k" for k
  proof -
    from that have "0 < k" by simp
    then show ?thesis using pages [of "int k"] page_slice_nat [OF sz, of k xs] by simp
  qed
  have "map (\<lambda>k. f (int k)) [1..<Suc (nat n)] =
        map (\<lambda>k. map g (take (nat sz) (drop ((k - 1) * nat sz) xs))) [1..<Suc (nat n)]"
  proof (rule map_cong [OF refl])
    fix k assume "k \<in> set [1..<Suc (nat n)]"
    then have "1 \<le> k" by (simp del: upt_Suc)
    then show "f (int k) = map g (take (nat sz) (drop ((k - 1) * nat sz) xs))" by (rule each)
  qed
  then have "pages_upto f n =
        concat (map (\<lambda>k. map g (take (nat sz) (drop ((k - 1) * nat sz) xs))) [1..<Suc (nat n)])"
    unfolding pages_upto_def by (rule arg_cong)
  also have "\<dots> = map g (concat (map (\<lambda>k. take (nat sz) (drop ((k - 1) * nat sz) xs))
                                    [1..<Suc (nat n)]))"
    by (simp add: map_concat comp_def del: upt_Suc)
  also have "\<dots> = map g (take (nat n * nat sz) xs)"
    by (simp only: concat_slices)
  also have "\<dots> = map g xs"
  proof -
    have "0 \<le> n"
    proof (rule ccontr)
      assume "\<not> 0 \<le> n"
      then have "n * sz < 0" using sz by (simp add: mult_less_0_iff)
      with cover show False by simp
    qed
    then have "int (nat n * nat sz) = n * sz" using sz by simp
    with cover have "length xs \<le> nat n * nat sz" by linarith
    then show ?thesis by simp
  qed
  finally show ?thesis .
qed

subsection \<open>The order of a statement\<close>

lemma key_order_mset: "mset (key_order rank key rows) = mset rows"
proof -
  have "mset (key_order rank key rows) = image_mset snd (mset (enumerate 0 rows))"
    by (simp add: key_order_def del: map_snd_enumerate)
  also have "\<dots> = mset (map snd (enumerate 0 rows))" by (simp only: mset_map)
  also have "\<dots> = mset rows" by (simp only: map_snd_enumerate)
  finally show ?thesis .
qed

lemma sorted_map_fst:
  fixes f :: "'a \<Rightarrow> 'k::linorder \<times> nat"
  assumes "sorted (map f ys)"
  shows "sorted (map (\<lambda>y. fst (f y)) ys)"
  using assms
proof (induction ys)
  case Nil
  then show ?case by simp
next
  case (Cons y ys)
  have "fst (f y) \<le> fst (f z)" if "z \<in> set ys" for z
  proof -
    from Cons.prems that have "f y \<le> f z" by simp
    then show ?thesis by (cases "f y"; cases "f z") (auto simp: less_eq_prod_simp)
  qed
  with Cons show ?case by simp
qed

lemma key_order_sorted: "sorted (map key (key_order rank key rows))"
proof -
  let ?f = "\<lambda>(i, x). (key x, rank i)"
  let ?ys = "sort_key ?f (enumerate 0 rows)"
  have "sorted (map ?f ?ys)" by (rule sorted_sort_key)
  then have "sorted (map (\<lambda>y. fst (?f y)) ?ys)" by (rule sorted_map_fst)
  moreover have "map (\<lambda>y. fst (?f y)) ?ys = map key (map snd ?ys)"
    by (simp add: case_prod_beta)
  ultimately show ?thesis by (simp add: key_order_def)
qed

text \<open>With pairwise distinct keys there is one sequence of the rows that is sorted by key:
  what the store settles for the statement does not show.\<close>

lemma sorted_by_key_unique:
  assumes "distinct (map key rows)"
    and "mset xs = mset rows" and "sorted (map key xs)"
    and "mset ys = mset rows" and "sorted (map key ys)"
  shows "xs = ys"
proof (rule map_sorted_distinct_set_unique [of key])
  have sets: "set xs = set rows" "set ys = set rows"
    using assms(2,4) by (auto dest: mset_eq_setD)
  from assms(1) have "inj_on key (set rows)" by (simp add: distinct_map)
  with sets show "inj_on key (set xs \<union> set ys)" by simp
  show "set xs = set ys" using sets by simp
  have "mset (map key xs) = mset (map key rows)" using assms(2) by simp
  then show "distinct (map key xs)"
    using assms(1) by (metis mset_eq_imp_distinct_iff)
  have "mset (map key ys) = mset (map key rows)" using assms(4) by simp
  then show "distinct (map key ys)"
    using assms(1) by (metis mset_eq_imp_distinct_iff)
qed (use assms in simp_all)

lemma key_order_rank_irrelevant:
  assumes "distinct (map key rows)"
  shows "key_order rank key rows = key_order rank' key rows"
  by (rule sorted_by_key_unique [OF assms key_order_mset key_order_sorted
        key_order_mset key_order_sorted])

lemma order_by_mset:
  "order_by rank key direction rows = Inr xs \<Longrightarrow> mset xs = mset rows"
  by (auto simp: order_by_def key_order_mset split: if_splits)

lemma order_by_rank_irrelevant:
  assumes "distinct (map key rows)"
  shows "order_by rank key direction rows = order_by rank' key direction rows"
  using key_order_rank_irrelevant [OF assms, of rank rank'] by (simp add: order_by_def)

lemma order_by_total:
  "direction = ''ASC'' \<or> direction = ''DESC'' \<Longrightarrow>
     \<exists>xs. order_by rank key direction rows = Inr xs"
  by (auto simp: order_by_def)

lemma order_comments_mset:
  "order_comments rank column direction rows = Inr xs \<Longrightarrow> mset xs = mset rows"
  by (auto simp: order_comments_def dest: order_by_mset split: if_splits)

lemma order_comments_total:
  "direction = ''ASC'' \<or> direction = ''DESC'' \<Longrightarrow>
     \<exists>xs. order_comments rank column direction rows = Inr xs"
  by (simp add: order_comments_def order_by_total)

lemma order_by_then_id_mset:
  "order_by_then_id key direction rows = Inr xs \<Longrightarrow> mset xs = mset rows"
  by (auto simp: order_by_then_id_def split: if_splits)

lemma order_posts_then_id_mset:
  "order_posts_then_id field direction rows = Inr xs \<Longrightarrow> mset xs = mset rows"
  by (auto simp: order_posts_then_id_def dest: order_by_then_id_mset split: if_splits)

lemma order_posts_then_id_total:
  "direction = ''ASC'' \<or> direction = ''DESC'' \<Longrightarrow>
     \<exists>xs. order_posts_then_id field direction rows = Inr xs"
  by (auto simp: order_posts_then_id_def order_by_then_id_def)

lemma order_posts_then_id_direction:
  "order_posts_then_id field direction rows = Inr xs \<Longrightarrow>
     direction = ''ASC'' \<or> direction = ''DESC''"
  by (auto simp: order_posts_then_id_def order_by_then_id_def split: if_splits)

subsection \<open>Pages\<close>

lemma limit_offset_page:
  assumes "0 < sz" and "0 < p"
  shows "limit_offset sz ((p - 1) * sz) xs = Inr (page_slice p sz xs)"
proof -
  define off where "off = (p - 1) * sz"
  have "0 \<le> off" using assms by (simp add: off_def)
  moreover have "\<not> sz < 0" using assms by simp
  ultimately have "limit_offset sz off xs = Inr (take (nat sz) (drop (nat off) xs))"
    by (simp add: limit_offset_def)
  then show ?thesis by (simp add: off_def page_slice_def)
qed


lemma map_pages_upto: "map h (pages_upto f n) = pages_upto (\<lambda>p. map h (f p)) n"
  by (simp add: pages_upto_def map_concat comp_def del: upt_Suc)

lemma or_default_pos: "0 < n \<Longrightarrow> or_default (Some n) d = n"
  by (simp add: or_default_def)

lemma comments_sortBy_pageNumber [simp]:
  "comments_sortBy (q\<lparr>pageNumber := v\<rparr>) = comments_sortBy q"
  by (simp add: comments_sortBy_def)

lemma comments_sortDirection_pageNumber [simp]:
  "comments_sortDirection (q\<lparr>pageNumber := v\<rparr>) = comments_sortDirection q"
  by (simp add: comments_sortDirection_def)

lemma posts_sortDirection_pageNumber [simp]:
  "posts_sortDirection (q\<lparr>pageNumber := v\<rparr>) = posts_sortDirection q"
  by (simp add: posts_sortDirection_def)

lemma safeSortBy_pageNumber [simp]:
  "safeSortBy allowed (q\<lparr>pageNumber := v\<rparr>) = safeSortBy allowed q"
  by (simp add: safeSortBy_def)


lemma mset_pages_upto_cong:
  assumes "\<And>k. 1 \<le> k \<Longrightarrow> mset (f (int k)) = mset (g (int k))"
  shows "mset (pages_upto f n) = mset (pages_upto g n)"
proof -
  define ks where "ks = [1..<Suc (nat n)]"
  have eq: "map (\<lambda>k. mset (f (int k))) ks = map (\<lambda>k. mset (g (int k))) ks"
  proof (rule map_cong [OF refl])
    fix k assume "k \<in> set ks"
    then have "1 \<le> k" by (simp add: ks_def del: upt_Suc)
    then show "mset (f (int k)) = mset (g (int k))" by (rule assms)
  qed
  have sum: "mset (concat (map (\<lambda>k. h (int k)) ks)) = sum_list (map (\<lambda>k. mset (h (int k))) ks)"
    for h :: "int \<Rightarrow> 'a list"
    by (simp add: mset_concat comp_def)
  have "mset (pages_upto f n) = sum_list (map (\<lambda>k. mset (f (int k))) ks)"
    unfolding pages_upto_def ks_def [symmetric] by (rule sum)
  also have "\<dots> = sum_list (map (\<lambda>k. mset (g (int k))) ks)" by (simp only: eq)
  also have "\<dots> = mset (pages_upto g n)"
    unfolding pages_upto_def ks_def [symmetric] by (rule sum [symmetric])
  finally show ?thesis .
qed

subsection \<open>The pages of the comment listing\<close>

lemma comment_items_ok:
  "viewer_id viewer = Inr v \<Longrightarrow>
     comment_items s viewer rows = Inr (map (comment_item s v) rows)"
  by (simp add: comment_items_def)

lemma order_comments_rank_irrelevant:
  assumes "comments_sortBy q = Inr column" and "comments_keys_distinct s postId q"
  shows "order_comments rank column direction (active_comments s postId) =
         order_comments rank' column direction (active_comments s postId)"
proof (cases "column = ''content''")
  case True
  with assms have "distinct (map comment_content (active_comments s postId))"
    by (simp add: comments_keys_distinct_def)
  then show ?thesis using True
    by (simp add: order_comments_def order_by_rank_irrelevant [of _ _ rank _ rank'])
next
  case False
  with assms have "distinct (map comment_created_at (active_comments s postId))"
    by (simp add: comments_keys_distinct_def)
  then show ?thesis using False
    by (simp add: order_comments_def order_by_rank_irrelevant [of _ _ rank _ rank'])
qed

lemma getCommentsForPost_Inr:
  assumes "getCommentsForPost rank s postId q viewer = Inr env"
  obtains column ordered where "comments_sortBy q = Inr column"
    and "order_comments rank column (comments_sortDirection q) (active_comments s postId)
           = Inr ordered"
  using assms by (auto simp: getCommentsForPost_def Let_def split: sum.splits)

lemma getCommentsForPost_page:
  assumes "0 < sz" and "0 < p" and "q_pageSize q = Some sz" and "viewer_id viewer = Inr v"
    and "comments_sortBy q = Inr column"
    and "order_comments rank column (comments_sortDirection q) (active_comments s postId)
           = Inr ordered"
  shows "getCommentsForPost rank s postId (q\<lparr>pageNumber := Some p\<rparr>) viewer =
           Inr \<lparr>pagesCount = Math_ceil_div (int (length (active_comments s postId))) sz,
                page = p, pageSize = sz,
                totalCount = int (length (active_comments s postId)),
                items = map (comment_item s v) (page_slice p sz ordered)\<rparr>"
  using assms
  by (simp add: getCommentsForPost_def Let_def or_default_pos limit_offset_page
        comment_items_ok)

text \<open>
  The comment listing with pairwise distinct sort keys, for a viewer the store can read: the
  envelope of page \<open>pg\<close> has the fields of the query and the count of the matching rows, its
  items are the slice at offset \<open>(pg - 1) * sz\<close> of the pages put one after the other, and the
  pages hold every matching row exactly once, whatever the store settles statement by
  statement.
\<close>

lemma comments_pagination:
  assumes pg: "0 < pg" and sz: "0 < sz"
    and qp: "pageNumber q = Some pg" and qs: "q_pageSize q = Some sz"
    and v: "viewer_id viewer = Inr v"
    and keys: "comments_keys_distinct s postId q"
    and ret: "getCommentsForPost (ranks pg) s postId q viewer = Inr env"
  shows "page env = pg \<and> pageSize env = sz
         \<and> totalCount env = int (length (active_comments s postId))
         \<and> pagesCount env = \<lceil>real_of_int (totalCount env) / real_of_int sz\<rceil>
         \<and> length (items env) \<le> nat sz
         \<and> items env =
             page_slice pg sz
               (pages_upto (comments_page_items ranks s postId q viewer) (pagesCount env))
         \<and> mset (pages_upto (comments_page_items ranks s postId q viewer) (pagesCount env)) =
             image_mset (comment_item s v) (mset (active_comments s postId))"
proof -
  from ret obtain column ordered where col: "comments_sortBy q = Inr column"
    and ord: "order_comments (ranks pg) column (comments_sortDirection q)
                (active_comments s postId) = Inr ordered"
    by (rule getCommentsForPost_Inr)
  have ord': "order_comments (ranks p) column (comments_sortDirection q)
                (active_comments s postId) = Inr ordered" for p
    using ord order_comments_rank_irrelevant [OF col keys, of "ranks p" _ "ranks pg"] by simp
  have q: "q\<lparr>pageNumber := Some pg\<rparr> = q" using qp by simp
  let ?total = "int (length (active_comments s postId))"
  have env: "env = \<lparr>pagesCount = Math_ceil_div ?total sz, page = pg, pageSize = sz,
                      totalCount = ?total,
                      items = map (comment_item s v) (page_slice pg sz ordered)\<rparr>"
    using getCommentsForPost_page [OF sz pg qs v col ord] ret q by simp
  have len: "length ordered = length (active_comments s postId)"
    using order_comments_mset [OF ord] by (rule mset_eq_length)
  have pages: "comments_page_items ranks s postId q viewer p =
                 map (comment_item s v) (page_slice p sz ordered)"
    if "0 < p" for p
    using getCommentsForPost_page [OF sz that qs v col ord']
    by (simp add: comments_page_items_def)
  have cover: "int (length ordered) \<le> pagesCount env * sz"
    using Math_ceil_div_cover [OF sz, of ?total] len env by simp
  have all: "pages_upto (comments_page_items ranks s postId q viewer) (pagesCount env) =
             map (comment_item s v) ordered"
    using sz pages cover by (rule pages_upto_slices)
  have "mset (map (comment_item s v) ordered) =
        image_mset (comment_item s v) (mset (active_comments s postId))"
    using order_comments_mset [OF ord] by simp
  with all env show ?thesis
    by (simp add: Math_ceil_div_def page_slice_map length_page_slice)
qed

subsection \<open>The pages of the post listings\<close>

lemma getMany_by_page:
  assumes "0 < sz" and "0 < p"
    and "order_by_then_id key direction matching = Inr ordered"
  shows "\<exists>rows. getMany_by rank key direction sz ((p - 1) * sz) matching = Inr rows
            \<and> mset rows = mset (page_slice p sz ordered)"
proof -
  from assms(3) have "direction = ''ASC'' \<or> direction = ''DESC''"
    by (auto simp: order_by_then_id_def split: if_splits)
  then obtain rows where rows: "order_by rank key direction (page_slice p sz ordered) = Inr rows"
    using order_by_total by blast
  then have "mset rows = mset (page_slice p sz ordered)" by (rule order_by_mset)
  with rows assms show ?thesis
    by (simp add: getMany_by_def limit_offset_page)
qed

lemma getMany_page:
  assumes "0 < sz" and "0 < p"
    and "order_posts_then_id field direction matching = Inr ordered"
  shows "\<exists>rows. getMany rank field direction sz ((p - 1) * sz) matching = Inr rows
            \<and> mset rows = mset (page_slice p sz ordered)"
  using assms unfolding getMany_def order_posts_then_id_def
  by (auto intro: getMany_by_page split: if_splits)

lemma getMany_by_Inr:
  "getMany_by rank key direction n_limit n_offset matching = Inr rows \<Longrightarrow>
     \<exists>ordered. order_by_then_id key direction matching = Inr ordered"
  by (auto simp: getMany_by_def split: sum.splits)

lemma getMany_Inr:
  "getMany rank field direction n_limit n_offset matching = Inr rows \<Longrightarrow>
     \<exists>ordered. order_posts_then_id field direction matching = Inr ordered"
  unfolding getMany_def order_posts_then_id_def
  by (auto dest: getMany_by_Inr split: if_splits)

lemma posts_page_Inr:
  assumes "posts_page rank s matching field q viewer = Inr env"
  obtains ordered v where
    "order_posts_then_id field (posts_sortDirection q) matching = Inr ordered"
    and "viewer_id viewer = Inr v"
proof -
  from assms obtain rows v where
    "getMany rank field (posts_sortDirection q) (destructure (q_pageSize q) 10)
       ((destructure (pageNumber q) 1 - 1) * destructure (q_pageSize q) 10) matching = Inr rows"
    and "viewer_id viewer = Inr v"
    by (auto simp: posts_page_def Let_def split: sum.splits)
  with that show ?thesis by (blast dest: getMany_Inr)
qed

lemma posts_page_page:
  assumes "0 < sz" and "0 < p" and "q_pageSize q = Some sz" and "viewer_id viewer = Inr v"
    and "order_posts_then_id field (posts_sortDirection q) matching = Inr ordered"
  shows "\<exists>e. posts_page rank s matching field (q\<lparr>pageNumber := Some p\<rparr>) viewer = Inr e
             \<and> pagesCount e = Math_ceil_div (int (length matching)) sz
             \<and> page e = p \<and> pageSize e = sz \<and> totalCount e = int (length matching)
             \<and> mset (map pv_id (items e)) = mset (map post_id (page_slice p sz ordered))"
proof -
  obtain rows where rows:
    "getMany rank field (posts_sortDirection q) sz ((p - 1) * sz) matching = Inr rows"
    "mset rows = mset (page_slice p sz ordered)"
    using getMany_page [OF assms(1,2,5)] by blast
  have ids: "image_mset pv_id (image_mset (post_item a b c) M) = image_mset post_id M"
    for a b c M
    by (simp add: multiset.map_comp comp_def post_item_def)
  from rows(2) have "mset (map post_id rows) = mset (map post_id (page_slice p sz ordered))"
    by simp
  with rows(1) assms(3,4) show ?thesis
    by (simp add: posts_page_def Let_def destructure_def ids)
qed

text \<open>
  The post listings: the envelope of page \<open>pg\<close> has the fields of the query and the count of
  the matching rows, at most \<open>sz\<close> items, and the pages hold the id of every matching row
  exactly once, whatever the store settles statement by statement: the ids of a page are
  selected in the order of the sort column and then of \<^verbatim>\<open>id\<close>.
\<close>

lemma posts_pagination:
  assumes pg: "0 < pg" and sz: "0 < sz"
    and qp: "pageNumber q = Some pg" and qs: "q_pageSize q = Some sz"
    and ret: "posts_page (ranks pg) s matching field q viewer = Inr env"
    and page_items: "\<And>p. page_items p =
          (case posts_page (ranks p) s matching field (q\<lparr>pageNumber := Some p\<rparr>) viewer of
             Inl e \<Rightarrow> [] | Inr e \<Rightarrow> items e)"
  shows "page env = pg \<and> pageSize env = sz
         \<and> totalCount env = int (length matching)
         \<and> pagesCount env = \<lceil>real_of_int (totalCount env) / real_of_int sz\<rceil>
         \<and> length (items env) \<le> nat sz
         \<and> mset (map pv_id (pages_upto page_items (pagesCount env))) =
             mset (map post_id matching)"
proof -
  from ret obtain ordered v where
    ord: "order_posts_then_id field (posts_sortDirection q) matching = Inr ordered"
    and v: "viewer_id viewer = Inr v"
    by (rule posts_page_Inr)
  have q: "q\<lparr>pageNumber := Some pg\<rparr> = q" using qp by simp
  let ?total = "int (length matching)"
  have env: "pagesCount env = Math_ceil_div ?total sz" "page env = pg" "pageSize env = sz"
    "totalCount env = ?total"
    "mset (map pv_id (items env)) = mset (map post_id (page_slice pg sz ordered))"
    using posts_page_page [OF sz pg qs v ord, of "ranks pg" s] ret q by auto
  have len: "length ordered = length matching"
    using order_posts_then_id_mset [OF ord] by (rule mset_eq_length)
  have pages: "mset (map pv_id (page_items (int k))) =
               mset (map post_id (page_slice (int k) sz ordered))"
    if "1 \<le> k" for k
  proof -
    from that have "0 < int k" by simp
    from posts_page_page [OF sz this qs v ord, of "ranks (int k)" s] page_items [of "int k"]
    show ?thesis by auto
  qed
  have cover: "int (length ordered) \<le> pagesCount env * sz"
    using Math_ceil_div_cover [OF sz, of ?total] len env(1) by simp
  have "mset (map pv_id (pages_upto page_items (pagesCount env))) =
        mset (pages_upto (\<lambda>p. map pv_id (page_items p)) (pagesCount env))"
    by (simp only: map_pages_upto)
  also have "\<dots> = mset (pages_upto (\<lambda>p. map post_id (page_slice p sz ordered)) (pagesCount env))"
    by (rule mset_pages_upto_cong) (rule pages)
  also have "pages_upto (\<lambda>p. map post_id (page_slice p sz ordered)) (pagesCount env) =
             map post_id ordered"
    using sz _ cover by (rule pages_upto_slices) simp
  also have "mset (map post_id ordered) = mset (map post_id matching)"
    using order_posts_then_id_mset [OF ord] by simp
  finally have all: "mset (map pv_id (pages_upto page_items (pagesCount env))) =
                     mset (map post_id matching)" .
  have "length (items env) = size (mset (map pv_id (items env)))" by simp
  also have "\<dots> = length (page_slice pg sz ordered)" unfolding env(5) by simp
  also have "\<dots> \<le> nat sz" by (rule length_page_slice)
  finally have short: "length (items env) \<le> nat sz" .
  show ?thesis
    using env(1-4) all short by (simp add: Math_ceil_div_def)
qed

lemma getPostsByBlogId_pagination:
  assumes "0 < pg" and "0 < sz" and "pageNumber q = Some pg" and "q_pageSize q = Some sz"
    and ret: "getPostsByBlogId (ranks pg) s blogId q viewer = Inr env"
  shows "page env = pg \<and> pageSize env = sz
         \<and> totalCount env = int (length (blog_posts s blogId))
         \<and> pagesCount env = \<lceil>real_of_int (totalCount env) / real_of_int sz\<rceil>
         \<and> length (items env) \<le> nat sz
         \<and> mset (map pv_id (pages_upto (blog_page_items ranks s blogId q viewer)
                               (pagesCount env))) =
             mset (map post_id (blog_posts s blogId))"
proof -
  from ret have "posts_page (ranks pg) s (blog_posts s blogId)
      (safeSortBy [''createdAt'', ''title'', ''shortDescription'', ''content''] q) q viewer
      = Inr env"
    by (simp add: getPostsByBlogId_def)
  moreover have "blog_page_items ranks s blogId q viewer p =
          (case posts_page (ranks p) s (blog_posts s blogId)
                  (safeSortBy [''createdAt'', ''title'', ''shortDescription'', ''content''] q)
                  (q\<lparr>pageNumber := Some p\<rparr>) viewer of
             Inl e \<Rightarrow> [] | Inr e \<Rightarrow> items e)" for p
    by (simp add: blog_page_items_def getPostsByBlogId_def)
  ultimately show ?thesis by (rule posts_pagination [OF assms(1-4)])
qed

lemma getAllPostsWithPagination_pagination:
  assumes "0 < pg" and "0 < sz" and "pageNumber q = Some pg" and "q_pageSize q = Some sz"
    and ret: "getAllPostsWithPagination (ranks pg) s q viewer = Inr env"
  shows "page env = pg \<and> pageSize env = sz
         \<and> totalCount env = int (length (active_posts s))
         \<and> pagesCount env = \<lceil>real_of_int (totalCount env) / real_of_int sz\<rceil>
         \<and> length (items env) \<le> nat sz
         \<and> mset (map pv_id (pages_upto (all_page_items ranks s q viewer) (pagesCount env))) =
             mset (map post_id (active_posts s))"
proof -
  from ret have "posts_page (ranks pg) s (active_posts s)
      (safeSortBy [''createdAt'', ''title'', ''shortDescription'', ''content'', ''blogName''] q)
      q viewer = Inr env"
    by (simp add: getAllPostsWithPagination_def)
  moreover have "all_page_items ranks s q viewer p =
          (case posts_page (ranks p) s (active_posts s)
                  (safeSortBy [''createdAt'', ''title'', ''shortDescription'', ''content'',
                               ''blogName''] q)
                  (q\<lparr>pageNumber := Some p\<rparr>) viewer of
             Inl e \<Rightarrow> [] | Inr e \<Rightarrow> items e)" for p
    by (simp add: all_page_items_def getAllPostsWithPagination_def)
  ultimately show ?thesis by (rule posts_pagination [OF assms(1-4)])
qed

text \<open>The listings return: the comment listing for a sort field that is no inherited key,
  the post listings for a direction that is one.\<close>

lemma getCommentsForPost_returns:
  assumes "0 < pg" and "0 < sz" and "pageNumber q = Some pg" and "q_pageSize q = Some sz"
    and "viewer_id viewer = Inr v" and "comments_sortBy q = Inr column"
  shows "\<exists>env. getCommentsForPost rank s postId q viewer = Inr env"
proof -
  obtain ordered where
    "order_comments rank column (comments_sortDirection q) (active_comments s postId)
       = Inr ordered"
    using order_comments_total [OF comments_sortDirection_cases] by blast
  moreover have "q\<lparr>pageNumber := Some pg\<rparr> = q" using assms(3) by simp
  ultimately show ?thesis
    using getCommentsForPost_page [OF assms(2) assms(1) assms(4) assms(5) assms(6),
        of rank s postId ordered]
    by simp
qed

lemma posts_page_returns:
  assumes "0 < pg" and "0 < sz" and "pageNumber q = Some pg" and "q_pageSize q = Some sz"
    and "viewer_id viewer = Inr v"
    and "posts_sortDirection q = ''ASC'' \<or> posts_sortDirection q = ''DESC''"
  shows "\<exists>env. posts_page rank s matching field q viewer = Inr env"
proof -
  obtain ordered where
    "order_posts_then_id field (posts_sortDirection q) matching = Inr ordered"
    using order_posts_then_id_total [OF assms(6)] by blast
  moreover have "q\<lparr>pageNumber := Some pg\<rparr> = q" using assms(3) by simp
  ultimately show ?thesis
    using posts_page_page [OF assms(2) assms(1) assms(4) assms(5), of field matching ordered
        rank s]
    by auto
qed

section \<open>The counters of a post\<close>

text \<open>
  Claim C1. A reaction update of a post moves the counters by the transition old \<rightarrow> new:
  when the user's current status is none, \<^verbatim>\<open>Like\<close> or \<^verbatim>\<open>Dislike\<close>, the counter matching the
  old status goes down by one, the counter matching the new status goes up by one, and the
  user's status becomes the new one. In particular, from counters (0, 0) and no reaction of the
  user, the updates \<^verbatim>\<open>Like\<close>, \<^verbatim>\<open>Dislike\<close>, \<^verbatim>\<open>None\<close> leave the counters at (1, 0), then (0, 1),
  then (0, 0).
\<close>

theorem updateLikeForPost_counter_transition:
  "(currentStatus s U P \<in> {None, Some ''Like'', Some ''Dislike''} \<longrightarrow>
      post_counters (updateLikeForPost now s P U login st) P =
        map (transition (currentStatus s U P) (normalizeLikeStatus st)) (post_counters s P)
      \<and> currentStatus (updateLikeForPost now s P U login st) U P =
          (if normalizeLikeStatus st = ''None'' then None else Some (normalizeLikeStatus st)))
   \<and> (post_counters s P = [(0, 0)] \<and> currentStatus s U P = None \<longrightarrow>
        post_counters (updateLikeForPost t1 s P U login ''Like'') P = [(1, 0)]
      \<and> post_counters
          (updateLikeForPost t2 (updateLikeForPost t1 s P U login ''Like'') P U login ''Dislike'')
          P = [(0, 1)]
      \<and> post_counters
          (updateLikeForPost t3
             (updateLikeForPost t2 (updateLikeForPost t1 s P U login ''Like'') P U login ''Dislike'')
             P U login ''None'')
          P = [(0, 0)])"
proof (intro conjI impI)
  assume old: "currentStatus s U P \<in> {None, Some ''Like'', Some ''Dislike''}"
  show "post_counters (updateLikeForPost now s P U login st) P =
          map (transition (currentStatus s U P) (normalizeLikeStatus st)) (post_counters s P)"
    using post_counters_updateLikeForPost [OF old] by simp
  from old have "currentStatus s U P \<noteq> Some []" by auto
  then show "currentStatus (updateLikeForPost now s P U login st) U P =
          (if normalizeLikeStatus st = ''None'' then None else Some (normalizeLikeStatus st))"
    by (rule currentStatus_updateLikeForPost)
next
  assume start: "post_counters s P = [(0, 0)] \<and> currentStatus s U P = None"
  let ?s1 = "updateLikeForPost t1 s P U login ''Like''"
  let ?s2 = "updateLikeForPost t2 ?s1 P U login ''Dislike''"
  let ?s3 = "updateLikeForPost t3 ?s2 P U login ''None''"
  have n: "normalizeLikeStatus ''Like'' = ''Like''" "normalizeLikeStatus ''Dislike'' = ''Dislike''"
    "normalizeLikeStatus ''None'' = ''None''"
    by (simp_all add: normalizeLikeStatus_def status_defs)
  have c0: "currentStatus s U P \<noteq> Some []" using start by simp
  have c1: "currentStatus ?s1 U P = Some ''Like''"
    using currentStatus_updateLikeForPost [OF c0, of t1 login "''Like''"] by (simp add: n)
  then have c1': "currentStatus ?s1 U P \<noteq> Some []" by simp
  have c2: "currentStatus ?s2 U P = Some ''Dislike''"
    using currentStatus_updateLikeForPost [OF c1', of t2 login "''Dislike''"] by (simp add: n)
  show p1: "post_counters ?s1 P = [(1, 0)]"
    using post_counters_updateLikeForPost [of s U P t1 login "''Like''" P] start
    by (simp add: n transition_def counter_delta_def)
  show p2: "post_counters ?s2 P = [(0, 1)]"
    using post_counters_updateLikeForPost [of ?s1 U P t2 login "''Dislike''" P] c1 p1
    by (simp add: n transition_def counter_delta_def)
  show "post_counters ?s3 P = [(0, 0)]"
    using post_counters_updateLikeForPost [of ?s2 U P t3 login "''None''" P] c2 p2
    by (simp add: n transition_def counter_delta_def)
qed

theorem updateLikeForPost_counter_transition_witness:
  "currentStatus \<lparr>posts = [example_post ''p1'' ''b1'' 7 0 0], comments = [], likes = []\<rparr> ''u1'' ''p1''
     \<in> {None, Some ''Like'', Some ''Dislike''}
   \<and> post_counters \<lparr>posts = [example_post ''p1'' ''b1'' 7 0 0], comments = [], likes = []\<rparr> ''p1''
       = [(0, 0)]
   \<and> currentStatus \<lparr>posts = [example_post ''p1'' ''b1'' 7 0 0], comments = [], likes = []\<rparr> ''u1'' ''p1''
       = None
   \<and> post_counters
        (updateLikeForPost 10 \<lparr>posts = [example_post ''p1'' ''b1'' 7 0 0], comments = [], likes = []\<rparr>
           ''p1'' ''u1'' ''login'' ''Like'') ''p1'' = [(1, 0)]
   \<and> post_counters
        (updateLikeForPost 11
          (updateLikeForPost 10 \<lparr>posts = [example_post ''p1'' ''b1'' 7 0 0], comments = [], likes = []\<rparr>
             ''p1'' ''u1'' ''login'' ''Like'')
          ''p1'' ''u1'' ''login'' ''Dislike'') ''p1'' = [(0, 1)]
   \<and> post_counters
        (updateLikeForPost 12
          (updateLikeForPost 11
            (updateLikeForPost 10 \<lparr>posts = [example_post ''p1'' ''b1'' 7 0 0], comments = [], likes = []\<rparr>
               ''p1'' ''u1'' ''login'' ''Like'')
            ''p1'' ''u1'' ''login'' ''Dislike'')
          ''p1'' ''u1'' ''login'' ''None'') ''p1'' = [(0, 0)]"
proof -
  let ?s = "\<lparr>posts = [example_post ''p1'' ''b1'' 7 0 0], comments = [], likes = []\<rparr>"
  have h1: "currentStatus ?s ''u1'' ''p1'' = None"
    by (simp add: currentStatus_def select_likes_def)
  have h2: "post_counters ?s ''p1'' = [(0, 0)]"
    by (simp add: post_counters_def example_post_def)
  show ?thesis
    using updateLikeForPost_counter_transition [of ?s "''u1''" "''p1''" 10 "''login''" "''Like''" 10 11 12]
      h1 h2
    by (simp add: transition_def counter_delta_def normalizeLikeStatus_def status_defs)
qed

section \<open>Uniqueness of reaction rows\<close>




section \<open>Repeated reaction updates\<close>

text \<open>
  Claim C3 on the code. \<^verbatim>\<open>updateLikeForComment\<close> updates the row in place, and a second call
  with the same status leaves the state of the first (lemma \<open>updateLikeForComment_twice\<close>).
  \<^verbatim>\<open>updateLikeForPost\<close> deletes the user's row and inserts a new one with \<^verbatim>\<open>NOW()\<close>: a second
  \<^verbatim>\<open>Like\<close> at time 20 leaves a row created at 20 where the first call left a row created at
  10, and the time shown among the newest likes of the post moves with it.
\<close>

theorem updateLikeForPost_twice_created_at:
  "updateLikeForPost 20
     (updateLikeForPost 10 \<lparr>posts = [example_post ''p1'' ''b1'' 7 0 0], comments = [], likes = []\<rparr>
        ''p1'' ''u1'' ''login'' ''Like'')
     ''p1'' ''u1'' ''login'' ''Like''
   \<noteq> updateLikeForPost 10 \<lparr>posts = [example_post ''p1'' ''b1'' 7 0 0], comments = [], likes = []\<rparr>
        ''p1'' ''u1'' ''login'' ''Like''
   \<and> map like_created_at
        (likes (updateLikeForPost 20
           (updateLikeForPost 10 \<lparr>posts = [example_post ''p1'' ''b1'' 7 0 0], comments = [], likes = []\<rparr>
              ''p1'' ''u1'' ''login'' ''Like'')
           ''p1'' ''u1'' ''login'' ''Like'')) = [20]
   \<and> map like_created_at
        (likes (updateLikeForPost 10 \<lparr>posts = [example_post ''p1'' ''b1'' 7 0 0], comments = [], likes = []\<rparr>
              ''p1'' ''u1'' ''login'' ''Like'')) = [10]
   \<and> map addedAt
        (newest_likes_of_post
           (updateLikeForPost 20
              (updateLikeForPost 10 \<lparr>posts = [example_post ''p1'' ''b1'' 7 0 0], comments = [], likes = []\<rparr>
                 ''p1'' ''u1'' ''login'' ''Like'')
              ''p1'' ''u1'' ''login'' ''Like'')
           ''p1'') = [IsoString 20]
   \<and> map addedAt
        (newest_likes_of_post
           (updateLikeForPost 10 \<lparr>posts = [example_post ''p1'' ''b1'' 7 0 0], comments = [], likes = []\<rparr>
              ''p1'' ''u1'' ''login'' ''Like'')
           ''p1'') = [IsoString 10]
   \<and> updateLikeForComment 20
       (updateLikeForComment 10 \<lparr>posts = [example_post ''p1'' ''b1'' 7 0 0], comments = [], likes = []\<rparr>
          ''c1'' ''u1'' ''login'' ''Like'')
       ''c1'' ''u1'' ''login'' ''Like''
     = updateLikeForComment 10 \<lparr>posts = [example_post ''p1'' ''b1'' 7 0 0], comments = [], likes = []\<rparr>
          ''c1'' ''u1'' ''login'' ''Like''"
proof -
  let ?s = "\<lparr>posts = [example_post ''p1'' ''b1'' 7 0 0], comments = [], likes = []\<rparr>"
  let ?once = "updateLikeForPost 10 ?s ''p1'' ''u1'' ''login'' ''Like''"
  let ?twice = "updateLikeForPost 20 ?once ''p1'' ''u1'' ''login'' ''Like''"
  have once: "likes ?once = [example_like ''u1'' ''p1'' ''Post'' ''Like'' 10]"
    by (simp add: updateLikeForPost_def Let_def normalizeLikeStatus_def status_defs
          currentStatus_def select_likes_def insert_like_def update_counter_def
          example_like_def)
  have twice: "likes ?twice = [example_like ''u1'' ''p1'' ''Post'' ''Like'' 20]"
    by (simp add: updateLikeForPost_def Let_def normalizeLikeStatus_def status_defs
          currentStatus_def select_likes_def insert_like_def update_counter_def
          delete_likes_def like_matches_def example_like_def)
  have t1: "map like_created_at (likes ?once) = [10]"
    and t2: "map like_created_at (likes ?twice) = [20]"
    by (simp_all add: once twice example_like_def)
  from t1 t2 have differ: "?twice \<noteq> ?once" by auto
  have n1: "map addedAt (newest_likes_of_post ?once ''p1'') = [IsoString 10]"
    and n2: "map addedAt (newest_likes_of_post ?twice ''p1'') = [IsoString 20]"
    by (simp_all add: newest_likes_of_post_def once twice example_like_def like_details_def
          toISOString_def)
  have c: "updateLikeForComment 20 (updateLikeForComment 10 ?s ''c1'' ''u1'' ''login'' ''Like'')
             ''c1'' ''u1'' ''login'' ''Like''
           = updateLikeForComment 10 ?s ''c1'' ''u1'' ''login'' ''Like''"
    by (rule updateLikeForComment_twice)
  from differ t2 t1 n2 n1 c show ?thesis by (intro conjI)
qed

section \<open>Spellings of a status\<close>

text \<open>
  Claim C4 on the code. \<^verbatim>\<open>updateLikeForComment\<close> capitalises its argument, so \<^verbatim>\<open>like\<close> is
  \<^verbatim>\<open>Like\<close>; \<^verbatim>\<open>normalizeLikeStatus\<close> of the post path compares exactly, so \<^verbatim>\<open>like\<close> is
  \<^verbatim>\<open>None\<close>: on a post the user likes, the call with \<^verbatim>\<open>like\<close> removes the reaction and
  takes the counter down, where the call with \<^verbatim>\<open>Like\<close> keeps both.
\<close>

theorem updateLikeForPost_lowercase_like:
  "updateLikeForPost 20
     \<lparr>posts = [example_post ''p1'' ''b1'' 7 1 0], comments = [],
      likes = [example_like ''u1'' ''p1'' ''Post'' ''Like'' 3]\<rparr>
     ''p1'' ''u1'' ''login'' ''like''
   = \<lparr>posts = [example_post ''p1'' ''b1'' 7 0 0], comments = [], likes = []\<rparr>
   \<and> updateLikeForPost 20
     \<lparr>posts = [example_post ''p1'' ''b1'' 7 1 0], comments = [],
      likes = [example_like ''u1'' ''p1'' ''Post'' ''Like'' 3]\<rparr>
     ''p1'' ''u1'' ''login'' ''Like''
   = \<lparr>posts = [example_post ''p1'' ''b1'' 7 1 0], comments = [],
      likes = [example_like ''u1'' ''p1'' ''Post'' ''Like'' 20]\<rparr>
   \<and> normalizeLikeStatus ''like'' = ''None''
   \<and> capitalize ''like'' = ''Like''"
  by (simp add: updateLikeForPost_def Let_def normalizeLikeStatus_def status_defs
        currentStatus_def select_likes_def insert_like_def update_counter_def
        delete_likes_def like_matches_def example_like_def example_post_def
        capitalize_def toUpperCase_def toLowerCase_def toUpperCase_char_def toLowerCase_char_def)

section \<open>The newest likes of a listing\<close>

text \<open>
  Claim C5 on the code. \<^verbatim>\<open>getNewestLikes\<close> runs one statement with \<^verbatim>\<open>LIMIT 3\<close> for all the posts
  of the page. Whatever the store settles for rows with equal keys (\<open>ranks\<close>): with three likes on post p1 newer than the one like on post p2, the listing of the
  blog gives p2 no newest likes, where the statement of \<^verbatim>\<open>findPostById\<close> for p2 alone gives its
  liker u4.
\<close>

theorem getPostsByBlogId_newestLikes:
  "map (\<lambda>i. (pv_id i, map liker_userId (newestLikes (extendedLikesInfo i))))
     (blog_page_items ranks
        \<lparr>posts = [example_post ''p1'' ''b1'' 1 3 0, example_post ''p2'' ''b1'' 2 1 0],
         comments = [],
         likes = [example_like ''u4'' ''p2'' ''Post'' ''Like'' 5,
                  example_like ''u1'' ''p1'' ''Post'' ''Like'' 11,
                  example_like ''u2'' ''p1'' ''Post'' ''Like'' 12,
                  example_like ''u3'' ''p1'' ''Post'' ''Like'' 13]\<rparr>
        ''b1'' \<lparr>pageNumber = None, q_pageSize = None, sortBy = None, sortDirection = None\<rparr> None 1)
   = [(''p2'', []), (''p1'', [''u3'', ''u2'', ''u1''])]
   \<and> map liker_userId
       (newest_likes_of_post
          \<lparr>posts = [example_post ''p1'' ''b1'' 1 3 0, example_post ''p2'' ''b1'' 2 1 0],
           comments = [],
           likes = [example_like ''u4'' ''p2'' ''Post'' ''Like'' 5,
                    example_like ''u1'' ''p1'' ''Post'' ''Like'' 11,
                    example_like ''u2'' ''p1'' ''Post'' ''Like'' 12,
                    example_like ''u3'' ''p1'' ''Post'' ''Like'' 13]\<rparr>
          ''p2'')
     = [''u4'']"
  by (simp add: blog_page_items_def getPostsByBlogId_def posts_page_def Let_def destructure_def
        safeSortBy_def posts_sortDirection_def toUpperCase_def toUpperCase_char_def
        getMany_def getMany_by_def order_by_then_id_def order_by_def key_order_def
        less_eq_prod_simp limit_offset_def viewer_id_def blog_posts_def post_item_def
        getNewestLikes_def newest_likes_of_post_def like_details_def
        example_post_def example_like_def)

section \<open>Pagination\<close>


section \<open>The sort direction\<close>

text \<open>
  Claim C7 on the code. \<^verbatim>\<open>getCommentsForPost\<close> maps every direction other than \<^verbatim>\<open>asc\<close> to
  \<^verbatim>\<open>DESC\<close>. \<^verbatim>\<open>getPostsByBlogId\<close> hands the upper-cased string to \<^verbatim>\<open>orderBy\<close> as it is: for
  \<^verbatim>\<open>foo\<close> that is \<^verbatim>\<open>FOO\<close>, no direction, and the listing fails instead of being descending.
\<close>

theorem getPostsByBlogId_sortDirection:
  "posts_sortDirection \<lparr>pageNumber = None, q_pageSize = None, sortBy = None,
                        sortDirection = Some ''foo''\<rparr> = ''FOO''
   \<and> getPostsByBlogId rank
       \<lparr>posts = [example_post ''p1'' ''b1'' 1 0 0, example_post ''p2'' ''b1'' 2 0 0],
        comments = [], likes = []\<rparr>
       ''b1'' \<lparr>pageNumber = None, q_pageSize = None, sortBy = None, sortDirection = Some ''foo''\<rparr>
       None
     = Inl StorageError
   \<and> comments_sortDirection \<lparr>pageNumber = None, q_pageSize = None, sortBy = None,
                             sortDirection = Some ''foo''\<rparr> = ''DESC''"
  by (simp add: getPostsByBlogId_def posts_page_def Let_def destructure_def
        safeSortBy_def posts_sortDirection_def toUpperCase_def toUpperCase_char_def
        getMany_def getMany_by_def order_by_then_id_def comments_sortDirection_def)

section \<open>The guard of comment mutations\<close>

text \<open>
  Claim C8, as stated, fails for a \<^verbatim>\<open>commentId\<close> that is no \<^verbatim>\<open>uuid\<close>: no comment has this id,
  and the statement of \<^verbatim>\<open>findById\<close> raises on the \<^verbatim>\<open>uuid\<close> column \<^verbatim>\<open>comments.id\<close>, so
  \<^verbatim>\<open>updateComment\<close> and \<^verbatim>\<open>deleteComment\<close> pass on the error of the store where the claim says
  not-found.
\<close>

theorem comment_mutation_not_a_uuid:
  "updateComment
     \<lparr>posts = [],
      comments = [example_comment ''00000000-0000-0000-0000-0000000000c1'' ''p1'' ''u1'' 5
                    ACTIVE],
      likes = []\<rparr>
     ''c1'' ''a new text of twenty characters'' ''u1''
   = (Some StorageError,
      \<lparr>posts = [],
       comments = [example_comment ''00000000-0000-0000-0000-0000000000c1'' ''p1'' ''u1'' 5
                     ACTIVE],
       likes = []\<rparr>)
   \<and> deleteComment
       \<lparr>posts = [],
        comments = [example_comment ''00000000-0000-0000-0000-0000000000c1'' ''p1'' ''u1'' 5
                      ACTIVE],
        likes = []\<rparr>
       ''c1'' ''u1''
     = (Some StorageError,
        \<lparr>posts = [],
         comments = [example_comment ''00000000-0000-0000-0000-0000000000c1'' ''p1'' ''u1'' 5
                       ACTIVE],
         likes = []\<rparr>)
   \<and> map comment_id
       (comments
          \<lparr>posts = [],
           comments = [example_comment ''00000000-0000-0000-0000-0000000000c1'' ''p1'' ''u1'' 5
                         ACTIVE],
           likes = []\<rparr>)
     = [''00000000-0000-0000-0000-0000000000c1'']
   \<and> StorageError \<noteq> NotFoundException"
  by (simp add: updateComment_def deleteComment_def findById_def uuid_in_eval
        example_comment_def)

text \<open>
  Claim C8, amended: for a \<^verbatim>\<open>commentId\<close> the store reads as the \<^verbatim>\<open>uuid\<close> \<open>cid\<close>.
  \<^verbatim>\<open>updateComment\<close> and \<^verbatim>\<open>deleteComment\<close>: when every row with the id \<open>cid\<close> is soft-deleted (in
  particular when there is none), the call fails with \<^verbatim>\<open>NotFoundException\<close> and leaves the state;
  when the comment is there and its author is not the requester, the call fails with
  \<^verbatim>\<open>ForbiddenException\<close> and leaves the state; when the requester is the author, the call succeeds
  with the repository's update. Existence decides first: the failure of a missing comment is
  never the authorisation failure, and that of a comment that is there is never not-found.
\<close>

theorem comment_mutation_guard:
  assumes "uuid_in commentId = Some cid"
  shows
  "((\<forall>c \<in> set (comments s). comment_id c = cid \<longrightarrow> comment_deletion_status c = DELETED) \<longrightarrow>
      updateComment s commentId content requester = (Some NotFoundException, s)
      \<and> deleteComment s commentId requester = (Some NotFoundException, s))
   \<and> (comment_author s cid = Some author \<and> author \<noteq> requester \<longrightarrow>
      \<not> (\<forall>c \<in> set (comments s). comment_id c = cid \<longrightarrow> comment_deletion_status c = DELETED)
      \<and> updateComment s commentId content requester = (Some ForbiddenException, s)
      \<and> deleteComment s commentId requester = (Some ForbiddenException, s))
   \<and> (comment_author s cid = Some requester \<longrightarrow>
      updateComment s commentId content requester = (None, updateContent s cid content)
      \<and> deleteComment s commentId requester = (None, CommentRepository_delete s cid))"
proof -
  have found: "\<exists>v. findById s commentId None = Inr (Some v) \<and> userId (commentatorInfo v) = a"
    if "comment_author s cid = Some a" for a
    using findById_author [OF assms, of s] that
    by (cases "findById s commentId None") (auto simp: map_option_case split: option.splits)
  have gone: "(\<forall>c \<in> set (comments s). comment_id c = cid \<longrightarrow> comment_deletion_status c = DELETED) \<longrightarrow>
      updateComment s commentId content requester = (Some NotFoundException, s)
      \<and> deleteComment s commentId requester = (Some NotFoundException, s)"
  proof (rule impI)
    assume "\<forall>c \<in> set (comments s). comment_id c = cid \<longrightarrow> comment_deletion_status c = DELETED"
    then have "findById s commentId None = Inr None"
      by (simp add: findById_None_iff [OF assms])
    then show "updateComment s commentId content requester = (Some NotFoundException, s)
      \<and> deleteComment s commentId requester = (Some NotFoundException, s)"
      by (simp add: updateComment_def deleteComment_def)
  qed
  have other: "comment_author s cid = Some author \<and> author \<noteq> requester \<longrightarrow>
      \<not> (\<forall>c \<in> set (comments s). comment_id c = cid \<longrightarrow> comment_deletion_status c = DELETED)
      \<and> updateComment s commentId content requester = (Some ForbiddenException, s)
      \<and> deleteComment s commentId requester = (Some ForbiddenException, s)"
  proof (rule impI)
    assume a: "comment_author s cid = Some author \<and> author \<noteq> requester"
    then obtain v where v: "findById s commentId None = Inr (Some v)"
      "userId (commentatorInfo v) = author"
      using found [of author] by blast
    from v(1) have "\<not> (\<forall>c \<in> set (comments s). comment_id c = cid \<longrightarrow>
                          comment_deletion_status c = DELETED)"
      using findById_None_iff [OF assms, of s] by simp
    moreover from v a
    have "updateComment s commentId content requester = (Some ForbiddenException, s)"
      "deleteComment s commentId requester = (Some ForbiddenException, s)"
      by (simp_all add: updateComment_def deleteComment_def)
    ultimately show "\<not> (\<forall>c \<in> set (comments s). comment_id c = cid \<longrightarrow>
                          comment_deletion_status c = DELETED)
      \<and> updateComment s commentId content requester = (Some ForbiddenException, s)
      \<and> deleteComment s commentId requester = (Some ForbiddenException, s)"
      by (intro conjI)
  qed
  have own: "comment_author s cid = Some requester \<longrightarrow>
      updateComment s commentId content requester = (None, updateContent s cid content)
      \<and> deleteComment s commentId requester = (None, CommentRepository_delete s cid)"
  proof (rule impI)
    assume "comment_author s cid = Some requester"
    then obtain v where v: "findById s commentId None = Inr (Some v)"
      "userId (commentatorInfo v) = requester"
      using found [of requester] by blast
    with assms
    show "updateComment s commentId content requester = (None, updateContent s cid content)
      \<and> deleteComment s commentId requester = (None, CommentRepository_delete s cid)"
      by (simp add: updateComment_def deleteComment_def)
  qed
  from gone other own show ?thesis by (intro conjI)
qed

theorem comment_mutation_guard_witness:
  "uuid_in ''00000000-0000-0000-0000-0000000000C1'' = Some ''00000000-0000-0000-0000-0000000000c1''
   \<and> uuid_in ''00000000-0000-0000-0000-0000000000c2'' = Some ''00000000-0000-0000-0000-0000000000c2''
   \<and> map (\<lambda>c. (comment_id c, comment_deletion_status c))
     (comments
        \<lparr>posts = [],
         comments = [example_comment ''00000000-0000-0000-0000-0000000000c1'' ''p1'' ''u1'' 5
                       DELETED,
                     example_comment ''00000000-0000-0000-0000-0000000000c2'' ''p1'' ''u1'' 6
                       ACTIVE],
         likes = []\<rparr>)
     = [(''00000000-0000-0000-0000-0000000000c1'', DELETED),
        (''00000000-0000-0000-0000-0000000000c2'', ACTIVE)]
   \<and> deleteComment
       \<lparr>posts = [],
        comments = [example_comment ''00000000-0000-0000-0000-0000000000c1'' ''p1'' ''u1'' 5
                      DELETED,
                    example_comment ''00000000-0000-0000-0000-0000000000c2'' ''p1'' ''u1'' 6
                      ACTIVE],
        likes = []\<rparr>
       ''00000000-0000-0000-0000-0000000000C1'' ''u2''
     = (Some NotFoundException,
        \<lparr>posts = [],
         comments = [example_comment ''00000000-0000-0000-0000-0000000000c1'' ''p1'' ''u1'' 5
                       DELETED,
                     example_comment ''00000000-0000-0000-0000-0000000000c2'' ''p1'' ''u1'' 6
                       ACTIVE],
         likes = []\<rparr>)
   \<and> comment_author
       \<lparr>posts = [],
        comments = [example_comment ''00000000-0000-0000-0000-0000000000c1'' ''p1'' ''u1'' 5
                      DELETED,
                    example_comment ''00000000-0000-0000-0000-0000000000c2'' ''p1'' ''u1'' 6
                      ACTIVE],
        likes = []\<rparr>
       ''00000000-0000-0000-0000-0000000000c2'' = Some ''u1''
   \<and> ''u1'' \<noteq> ''u2''
   \<and> updateComment
       \<lparr>posts = [],
        comments = [example_comment ''00000000-0000-0000-0000-0000000000c1'' ''p1'' ''u1'' 5
                      DELETED,
                    example_comment ''00000000-0000-0000-0000-0000000000c2'' ''p1'' ''u1'' 6
                      ACTIVE],
        likes = []\<rparr>
       ''00000000-0000-0000-0000-0000000000c2'' ''a new text of twenty characters'' ''u2''
     = (Some ForbiddenException,
        \<lparr>posts = [],
         comments = [example_comment ''00000000-0000-0000-0000-0000000000c1'' ''p1'' ''u1'' 5
                       DELETED,
                     example_comment ''00000000-0000-0000-0000-0000000000c2'' ''p1'' ''u1'' 6
                       ACTIVE],
         likes = []\<rparr>)
   \<and> fst (deleteComment
       \<lparr>posts = [],
        comments = [example_comment ''00000000-0000-0000-0000-0000000000c1'' ''p1'' ''u1'' 5
                      DELETED,
                    example_comment ''00000000-0000-0000-0000-0000000000c2'' ''p1'' ''u1'' 6
                      ACTIVE],
        likes = []\<rparr>
       ''00000000-0000-0000-0000-0000000000c2'' ''u1'') = None"
proof -
  let ?c1 = "''00000000-0000-0000-0000-0000000000c1''"
  let ?C1 = "''00000000-0000-0000-0000-0000000000C1''"
  let ?c2 = "''00000000-0000-0000-0000-0000000000c2''"
  let ?s = "\<lparr>posts = [],
             comments = [example_comment ?c1 ''p1'' ''u1'' 5 DELETED,
                         example_comment ?c2 ''p1'' ''u1'' 6 ACTIVE],
             likes = []\<rparr>"
  have u1: "uuid_in ?C1 = Some ?c1" by (simp add: uuid_in_eval)
  have u2: "uuid_in ?c2 = Some ?c2" by (simp add: uuid_in_eval)
  have h1: "\<forall>c \<in> set (comments ?s). comment_id c = ?c1 \<longrightarrow> comment_deletion_status c = DELETED"
    by (simp add: example_comment_def)
  have h2: "comment_author ?s ?c2 = Some ''u1''"
    by (simp add: comment_author_def example_comment_def)
  have h3: "''u1'' \<noteq> ''u2''" by simp
  have a: "deleteComment ?s ?C1 ''u2'' = (Some NotFoundException, ?s)"
    using comment_mutation_guard [OF u1, of ?s "''x''" "''u2''" "''u1''"] h1 by blast
  have b: "updateComment ?s ?c2 ''a new text of twenty characters'' ''u2''
             = (Some ForbiddenException, ?s)"
    using comment_mutation_guard [OF u2, of ?s "''a new text of twenty characters''" "''u2''" "''u1''"]
      h2 h3 by blast
  have c: "fst (deleteComment ?s ?c2 ''u1'') = None"
    using comment_mutation_guard [OF u2, of ?s "''x''" "''u1''" "''u1''"] h2 by simp
  have h0: "map (\<lambda>c. (comment_id c, comment_deletion_status c)) (comments ?s)
              = [(?c1, DELETED), (?c2, ACTIVE)]"
    by (simp add: example_comment_def)
  show ?thesis using u1 u2 h0 h2 h3 a b c by blast
qed

section \<open>The creation time of a comment view\<close>

text \<open>
  Claim C9 on the code. \<^verbatim>\<open>findById\<close> returns \<^verbatim>\<open>created_at.toISOString()\<close>; the items of
  \<^verbatim>\<open>getCommentsForPost\<close> carry \<^verbatim>\<open>c.created_at\<close>, the \<^verbatim>\<open>Date\<close> object of the row, as it is.
\<close>

theorem getCommentsForPost_createdAt:
  "map createdAt
     (comments_page_items ranks
        \<lparr>posts = [example_post ''p1'' ''b1'' 1 0 0],
         comments = [example_comment ''00000000-0000-0000-0000-0000000000c1'' ''p1'' ''u1'' 5
                       ACTIVE], likes = []\<rparr>
        ''p1'' \<lparr>pageNumber = None, q_pageSize = None, sortBy = None, sortDirection = None\<rparr> None 1)
   = [DateObject 5]
   \<and> map_sum id (map_option createdAt)
       (findById
          \<lparr>posts = [example_post ''p1'' ''b1'' 1 0 0],
           comments = [example_comment ''00000000-0000-0000-0000-0000000000c1'' ''p1'' ''u1'' 5
                       ACTIVE], likes = []\<rparr>
          ''00000000-0000-0000-0000-0000000000c1'' None)
     = Inr (Some (IsoString 5))"
  by (simp add: comments_page_items_def getCommentsForPost_def Let_def or_default_def
        comments_sortBy_def comments_sortDirection_def active_comments_def order_comments_def
        order_by_def key_order_def limit_offset_def comment_items_def comment_item_def
        viewer_id_def example_comment_def findById_def uuid_in_eval toISOString_def)

section \<open>Soft deletion\<close>

text \<open>
  Claim C10. \<^verbatim>\<open>CommentRepository.delete\<close> and \<^verbatim>\<open>deletePost\<close> change nothing but the deletion
  status of the rows they select, which becomes \<^verbatim>\<open>deleted\<close>: the other columns of every row (the
  counters of a post among them), the other tables, and all the rows of \<^verbatim>\<open>likes\<close> are as before.
\<close>

theorem soft_delete_frame:
  "likes (CommentRepository_delete s cid) = likes s
   \<and> posts (CommentRepository_delete s cid) = posts s
   \<and> map comment_deletion_status (comments (CommentRepository_delete s cid)) =
       map (\<lambda>c. if comment_id c = cid then DELETED else comment_deletion_status c) (comments s)
   \<and> map (comment_deletion_status_update (\<lambda>_. ACTIVE)) (comments (CommentRepository_delete s cid)) =
       map (comment_deletion_status_update (\<lambda>_. ACTIVE)) (comments s)
   \<and> likes (fst (deletePost s pid bid)) = likes s
   \<and> comments (fst (deletePost s pid bid)) = comments s
   \<and> map post_deletionStatus (posts (fst (deletePost s pid bid))) =
       map (\<lambda>p. if post_id p = pid \<and> post_blog_id p = bid then DELETED else post_deletionStatus p)
         (posts s)
   \<and> map (post_deletionStatus_update (\<lambda>_. ACTIVE)) (posts (fst (deletePost s pid bid))) =
       map (post_deletionStatus_update (\<lambda>_. ACTIVE)) (posts s)
   \<and> map post_likesCount (posts (fst (deletePost s pid bid))) = map post_likesCount (posts s)
   \<and> map post_dislikesCount (posts (fst (deletePost s pid bid))) = map post_dislikesCount (posts s)"
proof -
  have other_tables: "likes (CommentRepository_delete s cid) = likes s"
    "posts (CommentRepository_delete s cid) = posts s"
    "likes (fst (deletePost s pid bid)) = likes s"
    "comments (fst (deletePost s pid bid)) = comments s"
    by (simp_all add: CommentRepository_delete_def deletePost_def)
  have comment_rows:
    "map comment_deletion_status (comments (CommentRepository_delete s cid)) =
       map (\<lambda>c. if comment_id c = cid then DELETED else comment_deletion_status c) (comments s)"
    "map (comment_deletion_status_update (\<lambda>_. ACTIVE)) (comments (CommentRepository_delete s cid)) =
       map (comment_deletion_status_update (\<lambda>_. ACTIVE)) (comments s)"
    by (simp_all add: CommentRepository_delete_def comp_def if_distrib cong: if_cong)
  have post_rows:
    "map post_deletionStatus (posts (fst (deletePost s pid bid))) =
       map (\<lambda>p. if post_id p = pid \<and> post_blog_id p = bid then DELETED else post_deletionStatus p)
         (posts s)"
    "map (post_deletionStatus_update (\<lambda>_. ACTIVE)) (posts (fst (deletePost s pid bid))) =
       map (post_deletionStatus_update (\<lambda>_. ACTIVE)) (posts s)"
    by (simp_all add: deletePost_def comp_def if_distrib cong: if_cong)
  have counters:
    "map post_likesCount (posts (fst (deletePost s pid bid))) = map post_likesCount (posts s)"
    "map post_dislikesCount (posts (fst (deletePost s pid bid))) = map post_dislikesCount (posts s)"
    by (simp_all add: deletePost_def comp_def if_distrib cong: if_cong)
  from other_tables comment_rows post_rows counters show ?thesis by (intro conjI)
qed

end
